theory Spec2Isabelle
  imports Complex_Main "HOL-Library.Product_Lexorder" "HOL-Library.AList"
begin


section \<open>Python values used by the verification and experience code\<close>

text \<open>
  The code under study is Python. A \<open>str\<close> is modelled as a \<open>string\<close> whose characters
  are the code points 0 to 255; the predicates below are Python's on that range. The
  exceptions that the modelled code can raise are values of \<open>py_error\<close>, and a function
  that can raise returns \<open>py_error + 'a\<close>.
\<close>

datatype py_error = ValueError | TypeError | AttributeError | OverflowError

text \<open>\<open>str.isspace\<close>, which \<open>str.strip()\<close>, \<open>int()\<close> and the pattern \<open>\s\<close> use.\<close>

definition py_isspace :: "char \<Rightarrow> bool" where
  "py_isspace c = (of_char c \<in> {9, 10, 11, 12, 13, 28, 29, 30, 31, 32, 133, 160 :: nat})"

text \<open>Decimal digits: the pattern \<open>\d\<close> and the digits \<open>int()\<close> and \<open>float()\<close> read.\<close>

definition is_decimal :: "char \<Rightarrow> bool" where
  "is_decimal c = (48 \<le> (of_char c :: nat) \<and> (of_char c :: nat) \<le> 57)"

definition digit_val :: "char \<Rightarrow> int" where
  "digit_val c = of_char c - 48"

text \<open>
  \<open>str.isdigit()\<close> also accepts the superscript digits (code points 178, 179 and 185),
  and is false on the empty string.
\<close>

definition py_isdigit_char :: "char \<Rightarrow> bool" where
  "py_isdigit_char c = (is_decimal c \<or> of_char c \<in> {178, 179, 185 :: nat})"

definition py_isdigit :: "string \<Rightarrow> bool" where
  "py_isdigit s = (s \<noteq> [] \<and> list_all py_isdigit_char s)"

definition py_strip :: "string \<Rightarrow> string" where
  "py_strip s = rev (dropWhile py_isspace (rev (dropWhile py_isspace s)))"

text \<open>\<open>s.replace(a, b)\<close> for one-character \<open>a\<close> and \<open>b\<close>.\<close>

definition py_replace :: "char \<Rightarrow> char \<Rightarrow> string \<Rightarrow> string" where
  "py_replace a b s = map (\<lambda>c. if c = a then b else c) s"

text \<open>\<open>s.split(sep)\<close> for a one-character separator: never an empty list.\<close>

fun py_split :: "char \<Rightarrow> string \<Rightarrow> string list" where
  "py_split sep [] = [[]]"
| "py_split sep (c # cs) =
     (if c = sep then [] # py_split sep cs
      else (case py_split sep cs of
              [] \<Rightarrow> [[c]]
            | p # ps \<Rightarrow> (c # p) # ps))"

text \<open>\<open>s.zfill(width)\<close>: zeros go after a leading sign.\<close>

definition py_zfill :: "nat \<Rightarrow> string \<Rightarrow> string" where
  "py_zfill width s =
     (if width \<le> length s then s
      else (case s of
              [] \<Rightarrow> replicate width (CHR ''0'')
            | c # cs \<Rightarrow>
                if c = CHR ''+'' \<or> c = CHR ''-''
                then c # replicate (width - length s) (CHR ''0'') @ cs
                else replicate (width - length s) (CHR ''0'') @ s))"

text \<open>
  \<open>int(s)\<close> on a string, base 10: surrounding white space is dropped, one sign is
  allowed, and the digits may be grouped by single underscores. Anything else raises
  ValueError, and so does a numeral of more than 4300 digits (the interpreter's default
  limit on conversions). The white space that \<open>int()\<close> drops does not include the four
  separator characters 28 to 31.
\<close>

definition int_isspace :: "char \<Rightarrow> bool" where
  "int_isspace c = (of_char c \<in> {9, 10, 11, 12, 13, 32, 133, 160 :: nat})"

fun int_body_ok :: "string \<Rightarrow> bool" where
  "int_body_ok [] = False"
| "int_body_ok [c] = is_decimal c"
| "int_body_ok (c # d # cs) =
     (is_decimal c \<and>
      (if d = CHR ''_'' then cs \<noteq> [] \<and> int_body_ok cs else int_body_ok (d # cs)))"

definition digits_value :: "string \<Rightarrow> int" where
  "digits_value ds = foldl (\<lambda>acc c. 10 * acc + digit_val c) 0 ds"

definition int_max_str_digits :: nat where
  "int_max_str_digits = 4300"

definition py_int_of_str :: "string \<Rightarrow> py_error + int" where
  "py_int_of_str s =
     (let t = rev (dropWhile int_isspace (rev (dropWhile int_isspace s)));
          neg = (t \<noteq> [] \<and> hd t = CHR ''-'');
          body = (if t \<noteq> [] \<and> (hd t = CHR ''+'' \<or> hd t = CHR ''-'') then tl t else t);
          ds = filter (\<lambda>c. c \<noteq> CHR ''_'') body
      in if \<not> int_body_ok body \<or> int_max_str_digits < length ds then Inl ValueError
         else Inr (if neg then - digits_value ds else digits_value ds))"

text \<open>
  An argument that is a \<open>str\<close> or \<open>None\<close> (a database NULL) is a \<open>string option\<close>;
  \<open>not x\<close> holds for \<open>None\<close> and for the empty string.
\<close>

definition py_not :: "string option \<Rightarrow> bool" where
  "py_not x = (x = None \<or> x = Some [])"


section \<open>services/document\_verifier.py: dates of birth\<close>

definition normalize_date :: "string \<Rightarrow> py_error + string" where
  "normalize_date date_str0 =
     (if date_str0 = [] then Inr []
      else
        let date_str = py_strip date_str0;
            date_str = py_replace (CHR '' '') (CHR ''-'')
                         (py_replace (CHR ''.'') (CHR ''-'')
                           (py_replace (CHR ''/'') (CHR ''-'') date_str));
            parts = py_split (CHR ''-'') date_str
        in if length parts \<noteq> 3 then Inr date_str
           else
             let p0 = parts ! 0; p1 = parts ! 1; p2 = parts ! 2
             in if length p0 = 4 \<and> py_isdigit p0
                then Inr (py_zfill 2 p2 @ ''-'' @ py_zfill 2 p1 @ ''-'' @ p0)
                else
                  let day = py_zfill 2 p0; month = py_zfill 2 p1
                  in if length p2 = 2
                     then (case py_int_of_str p2 of
                             Inl e \<Rightarrow> Inl e
                           | Inr year_int \<Rightarrow>
                               Inr (day @ ''-'' @ month @ ''-'' @
                                    (if 50 < year_int then ''19'' @ p2 else ''20'' @ p2)))
                     else Inr (day @ ''-'' @ month @ ''-'' @ p2))"

text \<open>
  The string that \<open>normalize_date\<close> splits into parts: the input without surrounding
  white space, with every \<open>/\<close>, \<open>.\<close> and blank replaced by a hyphen. It is used to state
  what \<open>normalize_date\<close> returns.
\<close>

definition separators_to_hyphens :: "string \<Rightarrow> string" where
  "separators_to_hyphens s =
     py_replace (CHR '' '') (CHR ''-'')
       (py_replace (CHR ''.'') (CHR ''-'')
         (py_replace (CHR ''/'') (CHR ''-'') (py_strip s)))"

definition exact_match_dob :: "string option \<Rightarrow> string option \<Rightarrow> py_error + (bool \<times> string)" where
  "exact_match_dob dob1 dob2 =
     (if py_not dob1 \<or> py_not dob2 then Inr (False, ''One or both DOBs are missing'')
      else (case normalize_date (the dob1) of
              Inl e \<Rightarrow> Inl e
            | Inr norm1 \<Rightarrow>
                (case normalize_date (the dob2) of
                   Inl e \<Rightarrow> Inl e
                 | Inr norm2 \<Rightarrow>
                     if norm1 = norm2 then Inr (True, ''DOBs match'')
                     else Inr (False, ''DOB mismatch: '' @ norm1 @ '' vs '' @ norm2))))"


section \<open>services/document\_verifier.py: names\<close>

text \<open>
  \<open>str.upper()\<close>: the letters a to z and the accented lower-case letters move to their
  capitals, and the sharp s (code point 223) becomes \<open>SS\<close>. The capitals of the code
  points 181 and 255 lie outside the modelled range; both characters are kept here, and
  \<open>normalize_name\<close> deletes them, as it deletes their capitals.
\<close>

definition upper_char :: "char \<Rightarrow> string" where
  "upper_char c =
     (let n = (of_char c :: nat)
      in if 97 \<le> n \<and> n \<le> 122 then [char_of (n - 32)]
         else if n = 223 then ''SS''
         else if 224 \<le> n \<and> n \<le> 254 \<and> n \<noteq> 247 then [char_of (n - 32)]
         else [c])"

definition py_upper :: "string \<Rightarrow> string" where
  "py_upper s = concat (map upper_char s)"

definition is_upper_AZ :: "char \<Rightarrow> bool" where
  "is_upper_AZ c = (65 \<le> (of_char c :: nat) \<and> (of_char c :: nat) \<le> 90)"

text \<open>\<open>re.sub(r'\s+', ' ', s)\<close>: every maximal run of white space becomes one blank.\<close>

fun collapse_spaces :: "bool \<Rightarrow> string \<Rightarrow> string" where
  "collapse_spaces in_run [] = []"
| "collapse_spaces in_run (c # cs) =
     (if py_isspace c
      then (if in_run then collapse_spaces True cs else CHR '' '' # collapse_spaces True cs)
      else c # collapse_spaces False cs)"

definition normalize_name :: "string option \<Rightarrow> string" where
  "normalize_name name =
     (if py_not name then []
      else
        let normalized = py_strip (py_upper (the name));
            normalized = filter (\<lambda>c. is_upper_AZ c \<or> py_isspace c) normalized;
            normalized = collapse_spaces False normalized
        in py_strip normalized)"


subsection \<open>difflib.SequenceMatcher(None, a, b).ratio()\<close>

text \<open>
  \<open>fuzzy_match_names\<close> scores two names with the standard library's
  \<open>SequenceMatcher\<close>, built with \<open>isjunk = None\<close> and the default \<open>autojunk\<close>. Positions
  and sizes are Python integers, so they are \<open>int\<close> here.
\<close>

type_synonym match = "int \<times> int \<times> int"

text \<open>
  \<open>__chain_b\<close>: the dictionary \<open>b2j\<close> maps a character of \<open>b\<close> to the positions where it
  occurs, in increasing order; when \<open>b\<close> has 200 characters or more, the characters that
  occur more than \<open>n // 100 + 1\<close> times are deleted from it. The dictionary is an
  association list, read with \<open>map_of\<close>.
\<close>

definition chain_b :: "string \<Rightarrow> (char \<times> int list) list" where
  "chain_b b =
     (let b2j = fold (\<lambda>(i, elt) b2j.
                    AList.update elt
                      ((case map_of b2j elt of None \<Rightarrow> [] | Some indices \<Rightarrow> indices) @ [int i]) b2j)
                  (enumerate 0 b) [];
          n = length b
      in if 200 \<le> n
         then filter (\<lambda>(elt, idxs). \<not> n div 100 + 1 < length idxs) b2j
         else b2j)"

text \<open>No character is junk: \<open>bjunk\<close> is the empty set when \<open>isjunk\<close> is \<open>None\<close>.\<close>

definition isbjunk :: "char \<Rightarrow> bool" where
  "isbjunk c = False"

text \<open>
  The inner loop of \<open>find_longest_match\<close>, over the positions \<open>j\<close> of \<open>a[i]\<close> in \<open>b\<close>:
  \<open>continue\<close> below \<open>blo\<close>, \<open>break\<close> from \<open>bhi\<close> on.
\<close>

fun flm_inner :: "(int \<rightharpoonup> int) \<Rightarrow> int \<Rightarrow> int \<Rightarrow> int \<Rightarrow> int list \<Rightarrow>
    match \<times> (int \<rightharpoonup> int) \<Rightarrow> match \<times> (int \<rightharpoonup> int)" where
  "flm_inner j2len i blo bhi [] st = st"
| "flm_inner j2len i blo bhi (j # js) ((besti, bestj, bestsize), newj2len) =
     (if j < blo then flm_inner j2len i blo bhi js ((besti, bestj, bestsize), newj2len)
      else if bhi \<le> j then ((besti, bestj, bestsize), newj2len)
      else
        let k = (case j2len (j - 1) of None \<Rightarrow> 0 | Some v \<Rightarrow> v) + 1;
            newj2len' = newj2len(j \<mapsto> k)
        in if bestsize < k
           then flm_inner j2len i blo bhi js ((i - k + 1, j - k + 1, k), newj2len')
           else flm_inner j2len i blo bhi js ((besti, bestj, bestsize), newj2len'))"

text \<open>The outer loop, over \<open>i\<close> in \<open>range(alo, ahi)\<close>; each row starts a fresh \<open>newj2len\<close>.\<close>

fun flm_outer :: "string \<Rightarrow> (char \<times> int list) list \<Rightarrow> int \<Rightarrow> int \<Rightarrow> int list \<Rightarrow>
    match \<times> (int \<rightharpoonup> int) \<Rightarrow> match \<times> (int \<rightharpoonup> int)" where
  "flm_outer a b2j blo bhi [] st = st"
| "flm_outer a b2j blo bhi (i # is) (best, j2len) =
     flm_outer a b2j blo bhi is
       (flm_inner j2len i blo bhi
          (case map_of b2j (a ! nat i) of None \<Rightarrow> [] | Some js \<Rightarrow> js) (best, Map.empty))"

text \<open>
  The four \<open>while\<close> loops that extend the best block: first by characters that are not
  junk (\<open>junk = False\<close>), then by junk ones (\<open>junk = True\<close>).
\<close>

function extend_left :: "bool \<Rightarrow> string \<Rightarrow> string \<Rightarrow> int \<Rightarrow> int \<Rightarrow> match \<Rightarrow> match" where
  "extend_left junk a b alo blo (besti, bestj, bestsize) =
     (if alo < besti \<and> blo < bestj \<and> isbjunk (b ! nat (bestj - 1)) = junk \<and>
         a ! nat (besti - 1) = b ! nat (bestj - 1)
      then extend_left junk a b alo blo (besti - 1, bestj - 1, bestsize + 1)
      else (besti, bestj, bestsize))"
  by pat_completeness auto
termination
  by (relation "measure (\<lambda>(junk, a, b, alo, blo, besti, bestj, bestsize). nat (besti - alo))") auto

function extend_right :: "bool \<Rightarrow> string \<Rightarrow> string \<Rightarrow> int \<Rightarrow> int \<Rightarrow> match \<Rightarrow> match" where
  "extend_right junk a b ahi bhi (besti, bestj, bestsize) =
     (if besti + bestsize < ahi \<and> bestj + bestsize < bhi \<and>
         isbjunk (b ! nat (bestj + bestsize)) = junk \<and>
         a ! nat (besti + bestsize) = b ! nat (bestj + bestsize)
      then extend_right junk a b ahi bhi (besti, bestj, bestsize + 1)
      else (besti, bestj, bestsize))"
  by pat_completeness auto
termination
  by (relation "measure (\<lambda>(junk, a, b, ahi, bhi, besti, bestj, bestsize). nat (ahi - besti - bestsize))") auto

definition find_longest_match ::
    "string \<Rightarrow> string \<Rightarrow> (char \<times> int list) list \<Rightarrow> int \<Rightarrow> int \<Rightarrow> int \<Rightarrow> int \<Rightarrow> match" where
  "find_longest_match a b b2j alo ahi blo bhi =
     (let best = fst (flm_outer a b2j blo bhi [alo..ahi - 1] ((alo, blo, 0), Map.empty));
          best = extend_left False a b alo blo best;
          best = extend_right False a b ahi bhi best;
          best = extend_left True a b alo blo best;
          best = extend_right True a b ahi bhi best
      in best)"

declare extend_left.simps [simp del]
declare extend_right.simps [simp del]


subsection \<open>The block that find\_longest\_match returns lies in the range it was given\<close>

text \<open>
  \<open>best_ok\<close> is the invariant of the best block: it starts at or after \<open>(alo, blo)\<close>, and
  either it is still the empty block at \<open>(alo, blo)\<close> or it ends at or before
  \<open>(ahi, bhi)\<close>. \<open>row_ok\<close> bounds the lengths kept in \<open>j2len\<close>.
\<close>

definition best_ok :: "int \<Rightarrow> int \<Rightarrow> int \<Rightarrow> int \<Rightarrow> match \<Rightarrow> bool" where
  "best_ok alo ahi blo bhi m =
     (case m of (i, j, k) \<Rightarrow>
        alo \<le> i \<and> blo \<le> j \<and> 0 \<le> k \<and>
        (k = 0 \<and> i = alo \<and> j = blo \<or> i + k \<le> ahi \<and> j + k \<le> bhi))"

definition row_ok :: "int \<Rightarrow> int \<Rightarrow> int \<Rightarrow> (int \<rightharpoonup> int) \<Rightarrow> bool" where
  "row_ok alo blo n m = (\<forall>j v. m j = Some v \<longrightarrow> 1 \<le> v \<and> v \<le> n - alo \<and> v \<le> j - blo + 1)"

lemma row_ok_empty: "row_ok alo blo n Map.empty"
  by (simp add: row_ok_def)

lemma flm_inner_ok:
  assumes "row_ok alo blo i j2len" and "alo \<le> i" and "i < ahi"
    and "best_ok alo ahi blo bhi best" and "row_ok alo blo (i + 1) new"
    and "flm_inner j2len i blo bhi js (best, new) = (best', new')"
  shows "best_ok alo ahi blo bhi best' \<and> row_ok alo blo (i + 1) new'"
  using assms
proof (induction js arbitrary: best new)
  case Nil
  then show ?case by simp
next
  case (Cons j js)
  obtain bi bj bs where best: "best = (bi, bj, bs)" by (cases best)
  show ?case
  proof (cases "j < blo")
    case True
    with Cons best show ?thesis by simp
  next
    case lo: False
    show ?thesis
    proof (cases "bhi \<le> j")
      case True
      with Cons.prems lo best show ?thesis by simp
    next
      case hi: False
      define k where "k = (case j2len (j - 1) of None \<Rightarrow> 0 | Some v \<Rightarrow> v) + 1"
      have k1: "1 \<le> k" and k2: "k \<le> i + 1 - alo" and k3: "k \<le> j - blo + 1"
      proof -
        show "1 \<le> k" using Cons.prems(1) unfolding k_def row_ok_def
          by (cases "j2len (j - 1)") force+
        show "k \<le> i + 1 - alo" using Cons.prems(1,2) unfolding k_def row_ok_def
          by (cases "j2len (j - 1)") force+
        show "k \<le> j - blo + 1" using Cons.prems(1) lo unfolding k_def row_ok_def
          by (cases "j2len (j - 1)") force+
      qed
      have new_ok: "row_ok alo blo (i + 1) (new(j \<mapsto> k))"
        using Cons.prems(5) k1 k2 k3 by (simp add: row_ok_def)
      show ?thesis
      proof (cases "bs < k")
        case True
        have "best_ok alo ahi blo bhi (i - k + 1, j - k + 1, k)"
          using k1 k2 k3 hi Cons.prems(3) by (simp add: best_ok_def)
        moreover have "flm_inner j2len i blo bhi js ((i - k + 1, j - k + 1, k), new(j \<mapsto> k)) = (best', new')"
          using Cons.prems(6) lo hi True best by (simp add: k_def Let_def)
        ultimately show ?thesis
          using Cons.IH[OF Cons.prems(1,2,3) _ new_ok] by blast
      next
        case False
        have "flm_inner j2len i blo bhi js (best, new(j \<mapsto> k)) = (best', new')"
          using Cons.prems(6) lo hi False best by (simp add: k_def Let_def)
        then show ?thesis
          using Cons.IH[OF Cons.prems(1,2,3,4) new_ok] by blast
      qed
    qed
  qed
qed

lemma flm_outer_ok:
  "alo \<le> i0 \<Longrightarrow> row_ok alo blo i0 j2len \<Longrightarrow> best_ok alo ahi blo bhi best \<Longrightarrow>
   best_ok alo ahi blo bhi (fst (flm_outer a b2j blo bhi [i0..ahi - 1] (best, j2len)))"
proof (induction i0 "ahi - 1" arbitrary: best j2len rule: upto.induct)
  case (1 i0)
  show ?case
  proof (cases "i0 \<le> ahi - 1")
    case False
    then show ?thesis using 1 by simp
  next
    case True
    define js where "js = (case map_of b2j (a ! nat i0) of None \<Rightarrow> [] | Some js \<Rightarrow> js)"
    obtain best' new' where step: "flm_inner j2len i0 blo bhi js (best, Map.empty) = (best', new')"
      by (cases "flm_inner j2len i0 blo bhi js (best, Map.empty)")
    have i0: "i0 < ahi" using True by simp
    have ok: "best_ok alo ahi blo bhi best' \<and> row_ok alo blo (i0 + 1) new'"
      by (rule flm_inner_ok[OF "1.prems"(2) "1.prems"(1) i0 "1.prems"(3) row_ok_empty step])
    have unf: "[i0..ahi - 1] = i0 # [i0 + 1..ahi - 1]"
      using True by (rule upto_rec1)
    have "alo \<le> i0 + 1" using "1.prems"(1) by simp
    then have "best_ok alo ahi blo bhi (fst (flm_outer a b2j blo bhi [i0 + 1..ahi - 1] (best', new')))"
      using "1.hyps"[OF True] ok by blast
    then show ?thesis
      by (simp only: unf flm_outer.simps js_def[symmetric] step)
  qed
qed

lemma extend_left_ok:
  "best_ok alo ahi blo bhi m \<Longrightarrow> best_ok alo ahi blo bhi (extend_left junk a b alo blo m)"
proof (induction junk a b alo blo m rule: extend_left.induct)
  case (1 junk a b alo blo besti bestj bestsize)
  show ?case
  proof (cases "alo < besti \<and> blo < bestj \<and> isbjunk (b ! nat (bestj - 1)) = junk \<and>
         a ! nat (besti - 1) = b ! nat (bestj - 1)")
    case True
    have "best_ok alo ahi blo bhi (besti - 1, bestj - 1, bestsize + 1)"
      using "1.prems" True by (auto simp: best_ok_def)
    then have "best_ok alo ahi blo bhi (extend_left junk a b alo blo (besti - 1, bestj - 1, bestsize + 1))"
      using "1.IH" True by blast
    then show ?thesis
      using True by (subst extend_left.simps) simp
  next
    case False
    then show ?thesis
      using "1.prems" by (subst extend_left.simps) auto
  qed
qed

lemma extend_right_ok:
  "best_ok alo ahi blo bhi m \<Longrightarrow> best_ok alo ahi blo bhi (extend_right junk a b ahi bhi m)"
proof (induction junk a b ahi bhi m rule: extend_right.induct)
  case (1 junk a b ahi bhi besti bestj bestsize)
  show ?case
  proof (cases "besti + bestsize < ahi \<and> bestj + bestsize < bhi \<and>
         isbjunk (b ! nat (bestj + bestsize)) = junk \<and>
         a ! nat (besti + bestsize) = b ! nat (bestj + bestsize)")
    case True
    have "best_ok alo ahi blo bhi (besti, bestj, bestsize + 1)"
      using "1.prems" True by (auto simp: best_ok_def)
    then have "best_ok alo ahi blo bhi (extend_right junk a b ahi bhi (besti, bestj, bestsize + 1))"
      using "1.IH" True by blast
    then show ?thesis
      using True by (subst extend_right.simps) simp
  next
    case False
    then show ?thesis
      using "1.prems" by (subst extend_right.simps) auto
  qed
qed

lemma find_longest_match_ok:
  "best_ok alo ahi blo bhi (find_longest_match a b b2j alo ahi blo bhi)"
proof -
  have "best_ok alo ahi blo bhi (alo, blo, 0)" by (simp add: best_ok_def)
  then have "best_ok alo ahi blo bhi (fst (flm_outer a b2j blo bhi [alo..ahi - 1] ((alo, blo, 0), Map.empty)))"
    by (intro flm_outer_ok) (simp_all add: row_ok_empty)
  then show ?thesis
    unfolding find_longest_match_def Let_def
    by (intro extend_right_ok extend_left_ok)
qed

lemma find_longest_match_bounds:
  "find_longest_match a b b2j alo ahi blo bhi = (i, j, k) \<Longrightarrow>
   alo \<le> i \<and> blo \<le> j \<and> 0 \<le> k \<and> (k = 0 \<or> i + k \<le> ahi \<and> j + k \<le> bhi)"
  using find_longest_match_ok[of alo ahi blo bhi a b b2j] by (auto simp: best_ok_def)


subsection \<open>get\_matching\_blocks and ratio\<close>

text \<open>
  The work list of \<open>get_matching_blocks\<close>. Python pops from and appends to the end of
  \<open>queue\<close>; here the head of the list is that end, so the range pushed last is the first
  element.
\<close>

function mb_loop :: "string \<Rightarrow> string \<Rightarrow> (char \<times> int list) list \<Rightarrow>
    (int \<times> int \<times> int \<times> int) list \<Rightarrow> match list \<Rightarrow> match list" where
  "mb_loop a b b2j [] matching_blocks = matching_blocks"
| "mb_loop a b b2j ((alo, ahi, blo, bhi) # queue) matching_blocks =
     (case find_longest_match a b b2j alo ahi blo bhi of
        (i, j, k) \<Rightarrow>
          if k \<noteq> 0
          then mb_loop a b b2j
                 ((if i + k < ahi \<and> j + k < bhi then [(i + k, ahi, j + k, bhi)] else []) @
                  (if alo < i \<and> blo < j then [(alo, i, blo, j)] else []) @ queue)
                 (matching_blocks @ [(i, j, k)])
          else mb_loop a b b2j queue matching_blocks)"
  by pat_completeness auto
termination
proof (relation "measure (\<lambda>(a, b, b2j, queue, mbs).
    sum_list (map (\<lambda>(alo, ahi, blo, bhi). 2 * nat (ahi - alo) + 1) queue))", goal_cases)
  case 1
  then show ?case by simp
next
  case (2 a b b2j alo ahi blo bhi queue matching_blocks i y j k)
  then have "find_longest_match a b b2j alo ahi blo bhi = (i, j, k)" by simp
  from find_longest_match_bounds[OF this] 2(3) show ?case by auto
next
  case (3 a b b2j alo ahi blo bhi queue matching_blocks i y j k)
  then show ?case by simp
qed

declare mb_loop.simps [simp del]

text \<open>The loop that merges adjacent blocks of the sorted list.\<close>

fun collapse_adjacent :: "match \<Rightarrow> match list \<Rightarrow> match list \<Rightarrow> match \<times> match list" where
  "collapse_adjacent (i1, j1, k1) non_adjacent [] = ((i1, j1, k1), non_adjacent)"
| "collapse_adjacent (i1, j1, k1) non_adjacent ((i2, j2, k2) # rest) =
     (if i1 + k1 = i2 \<and> j1 + k1 = j2
      then collapse_adjacent (i1, j1, k1 + k2) non_adjacent rest
      else collapse_adjacent (i2, j2, k2)
             (if k1 \<noteq> 0 then non_adjacent @ [(i1, j1, k1)] else non_adjacent) rest)"

definition get_matching_blocks :: "string \<Rightarrow> string \<Rightarrow> match list" where
  "get_matching_blocks a b =
     (let la = int (length a); lb = int (length b);
          matching_blocks = sort (mb_loop a b (chain_b b) [(0, la, 0, lb)] [])
      in case collapse_adjacent (0, 0, 0) [] matching_blocks of
           ((i1, j1, k1), non_adjacent) \<Rightarrow>
             (if k1 \<noteq> 0 then non_adjacent @ [(i1, j1, k1)] else non_adjacent) @ [(la, lb, 0)])"

text \<open>
  \<open>ratio()\<close> is \<open>2.0 * matches / length\<close>, a float. It is modelled by the rational number
  with that value: a score is compared with the threshold, and for two names of fewer
  than \<open>10^14\<close> characters together the rounding of the division does not change the
  outcome of that comparison when the threshold is a multiple of 0.01.
\<close>

definition calculate_ratio :: "int \<Rightarrow> int \<Rightarrow> rat" where
  "calculate_ratio matches len = (if len \<noteq> 0 then 2 * of_int matches / of_int len else 1)"

definition ratio :: "string \<Rightarrow> string \<Rightarrow> rat" where
  "ratio a b =
     calculate_ratio (sum_list (map (\<lambda>(i, j, k). k) (get_matching_blocks a b)))
       (int (length a) + int (length b))"

definition default_threshold :: rat where
  "default_threshold = 85 / 100"

definition fuzzy_match_names :: "string option \<Rightarrow> string option \<Rightarrow> rat \<Rightarrow> bool \<times> rat" where
  "fuzzy_match_names name1 name2 threshold =
     (if py_not name1 \<or> py_not name2 then (False, 0)
      else
        let norm1 = normalize_name name1; norm2 = normalize_name name2
        in if norm1 = norm2 then (True, 1)
           else
             let similarity = ratio norm1 norm2
             in (threshold \<le> similarity, similarity))"


section \<open>services/document\_verifier.py: verify\_documents\<close>

text \<open>
  \<open>round(x, ndigits)\<close> rounds to the nearest multiple of \<open>10^-ndigits\<close>, and to the even
  one when two are equally near. Floats are modelled by the rationals they stand for.
\<close>

definition round_half_even :: "rat \<Rightarrow> int" where
  "round_half_even x =
     (let f = \<lfloor>x\<rfloor>; d = x - of_int f
      in if d < 1 / 2 then f
         else if 1 / 2 < d then f + 1
         else if even f then f else f + 1)"

definition py_round :: "rat \<Rightarrow> nat \<Rightarrow> rat" where
  "py_round x ndigits = of_int (round_half_even (x * 10 ^ ndigits)) / 10 ^ ndigits"

text \<open>
  An educational document is the dictionary that
  \<open>get_educational_documents_for_verification\<close> builds from a database row. Its \<open>id\<close> is
  the integer key of the row; \<open>qualification\<close> is \<open>None\<close> when the key is absent, and the
  extracted name and date are \<open>None\<close> for a NULL.
\<close>

record edu_doc =
  doc_id :: int
  qualification :: "string option"
  extracted_name :: "string option"
  extracted_dob :: "string option"

record comparison =
  document_id :: int
  comparison_qualification :: string
  name_match :: bool
  name_similarity :: rat
  dob_match :: bool
  overall_match :: bool

text \<open>
  The \<open>reason\<close> of a name mismatch is the text
  \<open>Name similarity {name_similarity:.2%} below threshold\<close>; it is kept as the score that the
  text is formatted from. The reason of a date mismatch is the message of
  \<open>exact_match_dob\<close>.
\<close>

datatype mismatch_reason = NameSimilarityBelowThreshold rat | DobMessage string

record mismatch =
  mismatch_document_id :: int
  mismatch_qualification :: string
  field :: string
  personal_value :: string
  document_value :: string
  similarity :: "rat option"
  reason :: mismatch_reason

record verification_result =
  status :: string
  verified_count :: int
  total_count :: int
  comparisons :: "comparison list"
  mismatches :: "mismatch list"
  error :: "string option"

text \<open>\<open>x or "Not found"\<close> on a string or \<open>None\<close>.\<close>

definition or_not_found :: "string option \<Rightarrow> string" where
  "or_not_found x = (if py_not x then ''Not found'' else the x)"

text \<open>
  The loop over the documents; its state is the two lists and the counter it updates
  (\<open>comparisons\<close>, \<open>mismatches\<close> and \<open>verified_count\<close> in the source).
  The date comparison may raise; the exception leaves the loop and the function.
\<close>

fun verify_loop :: "string option \<Rightarrow> string option \<Rightarrow> edu_doc list \<Rightarrow>
    comparison list \<times> mismatch list \<times> int \<Rightarrow>
    py_error + (comparison list \<times> mismatch list \<times> int)" where
  "verify_loop personal_name personal_dob [] st = Inr st"
| "verify_loop personal_name personal_dob (edu_doc # rest) (comparison_list, mismatch_list, count) =
     (let qual = (case qualification edu_doc of None \<Rightarrow> ''Unknown'' | Some q \<Rightarrow> q);
          edu_name = extracted_name edu_doc;
          edu_dob = extracted_dob edu_doc;
          nm = fuzzy_match_names personal_name edu_name default_threshold
      in case exact_match_dob personal_dob edu_dob of
           Inl e \<Rightarrow> Inl e
         | Inr (dob_ok, dob_message) \<Rightarrow>
             let overall = (fst nm \<and> dob_ok);
                 count' = (if overall then count + 1 else count);
                 comparison_list' = comparison_list @
                   [\<lparr>document_id = doc_id edu_doc, comparison_qualification = qual,
                     name_match = fst nm, name_similarity = py_round (snd nm) 3,
                     dob_match = dob_ok, overall_match = overall\<rparr>];
                 mismatch_list' = mismatch_list @
                   (if \<not> fst nm
                    then [\<lparr>mismatch_document_id = doc_id edu_doc, mismatch_qualification = qual,
                           field = ''name'', personal_value = the personal_name,
                           document_value = or_not_found edu_name,
                           similarity = Some (py_round (snd nm) 3),
                           reason = NameSimilarityBelowThreshold (snd nm)\<rparr>]
                    else []) @
                   (if \<not> dob_ok
                    then [\<lparr>mismatch_document_id = doc_id edu_doc, mismatch_qualification = qual,
                           field = ''dob'', personal_value = the personal_dob,
                           document_value = or_not_found edu_dob,
                           similarity = None,
                           reason = DobMessage dob_message\<rparr>]
                    else [])
             in verify_loop personal_name personal_dob rest
                  (comparison_list', mismatch_list', count'))"

definition verify_documents :: "string option \<Rightarrow> string option \<Rightarrow> edu_doc list \<Rightarrow>
    py_error + verification_result" where
  "verify_documents personal_name personal_dob educational_documents =
     (if py_not personal_name \<or> py_not personal_dob
      then Inr \<lparr>status = ''pending'', verified_count = 0,
                total_count = int (length educational_documents),
                comparisons = [], mismatches = [],
                error = Some ''Personal document data incomplete''\<rparr>
      else if educational_documents = []
      then Inr \<lparr>status = ''pending'', verified_count = 0, total_count = 0,
                comparisons = [], mismatches = [],
                error = Some ''No educational documents found''\<rparr>
      else (case verify_loop personal_name personal_dob educational_documents ([], [], 0) of
              Inl e \<Rightarrow> Inl e
            | Inr (comparison_list, mismatch_list, count) \<Rightarrow>
                let total = int (length educational_documents)
                in Inr \<lparr>status = (if count = total then ''verified'' else ''failed''),
                        verified_count = count, total_count = total,
                        comparisons = comparison_list, mismatches = mismatch_list,
                        error = None\<rparr>))"

text \<open>
  The \<open>overall_match\<close> of one document, as the loop computes it: the name matches at the
  default threshold and the dates match. It is undefined (an exception) when the date
  comparison raises.
\<close>

definition doc_overall_match :: "string option \<Rightarrow> string option \<Rightarrow> edu_doc \<Rightarrow> py_error + bool" where
  "doc_overall_match personal_name personal_dob edu_doc =
     (case exact_match_dob personal_dob (extracted_dob edu_doc) of
        Inl e \<Rightarrow> Inl e
      | Inr (dob_ok, dob_message) \<Rightarrow>
          Inr (fst (fuzzy_match_names personal_name (extracted_name edu_doc) default_threshold) \<and> dob_ok))"


section \<open>api/form.py: the verification state written to the database\<close>

text \<open>
  After \<open>verify_documents\<close> returns, \<open>process_ocr_llm_verification\<close> (and the two other
  callers in the same file, which have the same two branches) writes the outcome through
  \<open>crud.update_worker_verification\<close> and \<open>crud.update_educational_document_verification\<close>.
  The database is modelled by the columns these two functions write: the verification
  status and errors of the worker's row, and for every row of \<open>educational_documents\<close>,
  by its \<open>id\<close>, its verification status (which may be NULL) and errors. The statements
  are taken to succeed; an UPDATE of a document that has no row changes nothing.
\<close>

record document_row =
  verification_status :: "string option"
  verification_errors :: "(string \<times> mismatch_reason) option"

record database =
  worker_verification_status :: "string option"
  worker_verification_errors :: "mismatch list option"
  educational_documents :: "int \<rightharpoonup> document_row"

text \<open>
  \<open>update_worker_verification(worker_id, status, errors)\<close>: the errors column is written
  only when \<open>errors\<close> is given.
\<close>

definition update_worker_verification :: "string \<Rightarrow> mismatch list option \<Rightarrow> database \<Rightarrow> database" where
  "update_worker_verification new_status errors db =
     (case errors of
        None \<Rightarrow> db\<lparr>worker_verification_status := Some new_status\<rparr>
      | Some ms \<Rightarrow> db\<lparr>worker_verification_status := Some new_status,
                      worker_verification_errors := Some ms\<rparr>)"

text \<open>
  \<open>update_educational_document_verification(doc_id, status, errors)\<close>: both columns of
  the row are written.
\<close>

definition update_educational_document_verification ::
    "int \<Rightarrow> string \<Rightarrow> (string \<times> mismatch_reason) option \<Rightarrow> database \<Rightarrow> database" where
  "update_educational_document_verification doc new_status errors db =
     (case educational_documents db doc of
        None \<Rightarrow> db
      | Some row \<Rightarrow>
          db\<lparr>educational_documents := (educational_documents db)
               (doc \<mapsto> \<lparr>verification_status = Some new_status, verification_errors = errors\<rparr>)\<rparr>)"

text \<open>The block \<open>Update DB verification state\<close> of \<open>process_ocr_llm_verification\<close>.\<close>

definition update_db_verification_state :: "verification_result \<Rightarrow> database \<Rightarrow> database" where
  "update_db_verification_state verification_result db =
     (if status verification_result = ''verified''
      then fold (\<lambda>comp db.
                   if overall_match comp
                   then update_educational_document_verification (document_id comp) ''verified'' None db
                   else db)
             (comparisons verification_result)
             (update_worker_verification ''verified'' None db)
      else fold (\<lambda>m db.
                   update_educational_document_verification (mismatch_document_id m) ''failed''
                     (Some (field m, reason m)) db)
             (mismatches verification_result)
             (update_worker_verification ''failed'' (Some (mismatches verification_result)) db))"


section \<open>db/crud.py: calculate\_total\_experience\_duration\<close>

text \<open>
  A workplace is a dictionary read from JSON. The model keeps the four keys that the
  function reads; a key that is absent is \<open>None\<close>, and a value is \<open>null\<close>, a boolean, an
  integer or a string.
\<close>

datatype pyval = PNone | PBool bool | PInt int | PStr string

record workplace =
  work_duration :: "pyval option"
  duration_months :: "pyval option"
  start_date :: "pyval option"
  end_date :: "pyval option"

definition truthy :: "pyval \<Rightarrow> bool" where
  "truthy v = (case v of PNone \<Rightarrow> False | PBool b \<Rightarrow> b | PInt n \<Rightarrow> n \<noteq> 0 | PStr s \<Rightarrow> s \<noteq> [])"

text \<open>\<open>key in workplace and workplace[key]\<close>.\<close>

definition present_and_truthy :: "pyval option \<Rightarrow> bool" where
  "present_and_truthy x = (case x of None \<Rightarrow> False | Some v \<Rightarrow> truthy v)"

fun nat_digits :: "nat \<Rightarrow> string" where
  "nat_digits n =
     (if n < 10 then [char_of (48 + n)]
      else nat_digits (n div 10) @ [char_of (48 + n mod 10)])"

declare nat_digits.simps [simp del]

text \<open>
  \<open>str(v)\<close>. The decimal text of an integer of more than 4300 digits is refused with
  ValueError.
\<close>

definition py_str :: "pyval \<Rightarrow> py_error + string" where
  "py_str v =
     (case v of
        PNone \<Rightarrow> Inr ''None''
      | PBool b \<Rightarrow> Inr (if b then ''True'' else ''False'')
      | PInt n \<Rightarrow>
          if int_max_str_digits < length (nat_digits (nat \<bar>n\<bar>)) then Inl ValueError
          else Inr (if n < 0 then CHR ''-'' # nat_digits (nat (- n)) else nat_digits (nat n))
      | PStr s \<Rightarrow> Inr s)"

text \<open>\<open>int(v)\<close>.\<close>

definition py_int :: "pyval \<Rightarrow> py_error + int" where
  "py_int v =
     (case v of
        PNone \<Rightarrow> Inl TypeError
      | PBool b \<Rightarrow> Inr (if b then 1 else 0)
      | PInt n \<Rightarrow> Inr n
      | PStr s \<Rightarrow> py_int_of_str s)"

text \<open>\<open>str.lower()\<close> on the modelled range of characters.\<close>

definition lower_char :: "char \<Rightarrow> char" where
  "lower_char c =
     (let n = (of_char c :: nat)
      in if (65 \<le> n \<and> n \<le> 90) \<or> (192 \<le> n \<and> n \<le> 222 \<and> n \<noteq> 215) then char_of (n + 32)
         else c)"

definition py_lower :: "string \<Rightarrow> string" where
  "py_lower s = map lower_char s"

text \<open>
  The two patterns \<open>(\d+\.?\d*)\s*(?:year|yr|y)\<close> and \<open>(\d+\.?\d*)\s*(?:month|mon|m)\<close>.
  \<open>unit_here\<close> is the alternation. \<open>number_unit_here\<close> is a match that starts at the head
  of the string: the quantifiers are greedy, and giving back a character of the digits,
  of the dot or of the white space leaves a digit, a dot or white space where the unit has
  to start, so the greedy attempt is the only one that can succeed. \<open>re_search\<close> is
  \<open>re.search\<close>: the leftmost start that matches; it returns group 1, the number.
\<close>

definition unit_here :: "string list \<Rightarrow> string \<Rightarrow> bool" where
  "unit_here units s = list_ex (\<lambda>u. take (length u) s = u) units"

definition number_unit_here :: "string list \<Rightarrow> string \<Rightarrow> string option" where
  "number_unit_here units s =
     (let d1 = takeWhile is_decimal s; r1 = dropWhile is_decimal s
      in if d1 = [] then None
         else
           let dot = (if r1 \<noteq> [] \<and> hd r1 = CHR ''.'' then ''.'' else []);
               r2 = (if r1 \<noteq> [] \<and> hd r1 = CHR ''.'' then tl r1 else r1);
               d2 = takeWhile is_decimal r2;
               r3 = dropWhile py_isspace (dropWhile is_decimal r2)
           in if unit_here units r3 then Some (d1 @ dot @ d2) else None)"

fun re_search :: "string list \<Rightarrow> string \<Rightarrow> string option" where
  "re_search units [] = None"
| "re_search units (c # cs) =
     (case number_unit_here units (c # cs) of
        Some g \<Rightarrow> Some g
      | None \<Rightarrow> re_search units cs)"

definition year_units :: "string list" where
  "year_units = [''year'', ''yr'', ''y'']"

definition month_units :: "string list" where
  "month_units = [''month'', ''mon'', ''m'']"

text \<open>
  \<open>float(s)\<close> for a group of these patterns (digits, then possibly a dot and digits), and
  \<open>int(x)\<close> of a float. A float is modelled by the rational it stands for; rounding to 53
  bits is not modelled. A value from \<open>2^1024 - 2^970\<close> on is the float \<open>inf\<close>, and \<open>int()\<close>
  of it raises OverflowError.
\<close>

definition float_of_decimal :: "string \<Rightarrow> rat" where
  "float_of_decimal s =
     (let ip = takeWhile is_decimal s;
          fp = takeWhile is_decimal (drop 1 (dropWhile is_decimal s))
      in of_int (digits_value ip) + of_int (digits_value fp) / 10 ^ length fp)"

definition float_max_bound :: int where
  "float_max_bound = 2 ^ 1024 - 2 ^ 970"

definition float_is_inf :: "rat \<Rightarrow> bool" where
  "float_is_inf x = (float_max_bound \<le> \<lfloor>x\<rfloor>)"

definition py_int_of_float :: "rat \<Rightarrow> py_error + int" where
  "py_int_of_float x =
     (if float_is_inf x then Inl OverflowError
      else Inr (if 0 \<le> x then \<lfloor>x\<rfloor> else \<lceil>x\<rceil>))"

text \<open>
  \<open>datetime.strptime\<close> with the formats \<open>%Y-%m\<close> and \<open>%Y-%m-%d\<close>. The format is
  compiled to a pattern: \<open>%Y\<close> is four digits, \<open>%m\<close> is \<open>1[0-2]|0[1-9]|[1-9]\<close> and \<open>%d\<close> is
  \<open>3[0-1]|[1-2]\d|0[1-9]|[1-9]| [1-9]\<close>. The pattern is matched at the start of the
  text, the alternatives tried in order; text left over after the match, a year 0 and a
  day that the month does not have raise ValueError. The results are the year and the
  month.
\<close>

definition match_Y :: "string \<Rightarrow> (int \<times> string) option" where
  "match_Y s =
     (if 4 \<le> length s \<and> list_all is_decimal (take 4 s)
      then Some (digits_value (take 4 s), drop 4 s) else None)"

definition digit_in :: "char \<Rightarrow> nat \<Rightarrow> nat \<Rightarrow> bool" where
  "digit_in c lo hi = (48 + lo \<le> (of_char c :: nat) \<and> (of_char c :: nat) \<le> 48 + hi)"

definition month_alternatives :: "string \<Rightarrow> (int \<times> string) list" where
  "month_alternatives s =
     (case s of
        [] \<Rightarrow> []
      | c1 # r1 \<Rightarrow>
          (case r1 of
             [] \<Rightarrow> []
           | c2 # r2 \<Rightarrow>
               (if c1 = CHR ''1'' \<and> digit_in c2 0 2 then [(10 + digit_val c2, r2)] else []) @
               (if c1 = CHR ''0'' \<and> digit_in c2 1 9 then [(digit_val c2, r2)] else [])) @
          (if digit_in c1 1 9 then [(digit_val c1, r1)] else []))"

definition day_alternatives :: "string \<Rightarrow> (int \<times> string) list" where
  "day_alternatives s =
     (case s of
        [] \<Rightarrow> []
      | c1 # r1 \<Rightarrow>
          (case r1 of
             [] \<Rightarrow> []
           | c2 # r2 \<Rightarrow>
               (if c1 = CHR ''3'' \<and> digit_in c2 0 1 then [(30 + digit_val c2, r2)] else []) @
               (if digit_in c1 1 2 \<and> is_decimal c2 then [(10 * digit_val c1 + digit_val c2, r2)] else []) @
               (if c1 = CHR ''0'' \<and> digit_in c2 1 9 then [(digit_val c2, r2)] else [])) @
          (if digit_in c1 1 9 then [(digit_val c1, r1)] else []) @
          (case r1 of
             [] \<Rightarrow> []
           | c2 # r2 \<Rightarrow>
               (if c1 = CHR '' '' \<and> digit_in c2 1 9 then [(digit_val c2, r2)] else [])))"

definition is_leap :: "int \<Rightarrow> bool" where
  "is_leap y = (y mod 4 = 0 \<and> (y mod 100 \<noteq> 0 \<or> y mod 400 = 0))"

definition days_in_month :: "int \<Rightarrow> int \<Rightarrow> int" where
  "days_in_month y m =
     (if m = 2 then (if is_leap y then 29 else 28)
      else if m = 4 \<or> m = 6 \<or> m = 9 \<or> m = 11 then 30 else 31)"

definition check_date_fields :: "int \<Rightarrow> int \<Rightarrow> int \<Rightarrow> py_error + (int \<times> int)" where
  "check_date_fields y m d =
     (if 1 \<le> y \<and> y \<le> 9999 \<and> 1 \<le> m \<and> m \<le> 12 \<and> 1 \<le> d \<and> d \<le> days_in_month y m
      then Inr (y, m) else Inl ValueError)"

definition strptime_Ym :: "string \<Rightarrow> py_error + (int \<times> int)" where
  "strptime_Ym s =
     (case match_Y s of
        None \<Rightarrow> Inl ValueError
      | Some (y, r) \<Rightarrow>
          if r \<noteq> [] \<and> hd r = CHR ''-''
          then (case month_alternatives (tl r) of
                  [] \<Rightarrow> Inl ValueError
                | (m, rest) # other \<Rightarrow>
                    if rest \<noteq> [] then Inl ValueError else check_date_fields y m 1)
          else Inl ValueError)"

definition strptime_Ymd :: "string \<Rightarrow> py_error + (int \<times> int)" where
  "strptime_Ymd s =
     (case match_Y s of
        None \<Rightarrow> Inl ValueError
      | Some (y, r) \<Rightarrow>
          if r \<noteq> [] \<and> hd r = CHR ''-''
          then (case concat (map (\<lambda>(m, r2).
                        if r2 \<noteq> [] \<and> hd r2 = CHR ''-''
                        then map (\<lambda>(d, rest). (m, d, rest)) (take 1 (day_alternatives (tl r2)))
                        else [])
                      (month_alternatives (tl r))) of
                  [] \<Rightarrow> Inl ValueError
                | (m, d, rest) # other \<Rightarrow>
                    if rest \<noteq> [] then Inl ValueError else check_date_fields y m d)
          else Inl ValueError)"

text \<open>The two branches on \<open>len(start_str) == 7\<close>.\<close>

definition parse_date :: "string \<Rightarrow> py_error + (int \<times> int)" where
  "parse_date s = (if length s = 7 then strptime_Ym s else strptime_Ymd (take 10 s))"

text \<open>Sequencing of steps that may raise.\<close>

definition py_bind :: "py_error + 'a \<Rightarrow> ('a \<Rightarrow> py_error + 'b) \<Rightarrow> py_error + 'b" where
  "py_bind x f = (case x of Inl e \<Rightarrow> Inl e | Inr v \<Rightarrow> f v)"

text \<open>
  Priority 1: the months read from the text of \<open>work_duration\<close> (\<open>workplace_months\<close> in
  the source), 0 when no pattern matches.
\<close>

definition duration_text_months :: "string \<Rightarrow> py_error + int" where
  "duration_text_months duration_str =
     py_bind (case re_search year_units duration_str of
                None \<Rightarrow> Inr 0
              | Some g \<Rightarrow> py_int_of_float (float_of_decimal g * 12))
       (\<lambda>from_years.
          py_bind (case re_search month_units duration_str of
                     None \<Rightarrow> Inr 0
                   | Some g \<Rightarrow> py_int_of_float (float_of_decimal g))
            (\<lambda>from_months. Inr (from_years + from_months)))"

text \<open>Priority 2 and priority 3, reached when priority 1 added nothing.\<close>

definition months_from_fields :: "workplace \<Rightarrow> int \<Rightarrow> py_error + int" where
  "months_from_fields w total_months =
     (if present_and_truthy (duration_months w)
      then py_bind (py_int (the (duration_months w)))
             (\<lambda>duration. Inr (total_months + max 0 duration))
      else if start_date w \<noteq> None \<and> end_date w \<noteq> None
      then py_bind (py_str (the (start_date w)))
             (\<lambda>s1. py_bind (py_str (the (end_date w)))
               (\<lambda>s2. py_bind (parse_date (py_strip s1))
                 (\<lambda>(start_year, start_month). py_bind (parse_date (py_strip s2))
                   (\<lambda>(end_year, end_month).
                      Inr (total_months +
                           max 0 ((end_year - start_year) * 12 + (end_month - start_month)))))))
      else Inr total_months)"

text \<open>The body of the \<open>try\<close> for one workplace: the new \<open>total_months\<close>, or the exception.\<close>

definition workplace_body :: "workplace \<Rightarrow> int \<Rightarrow> py_error + int" where
  "workplace_body w total_months =
     (if present_and_truthy (work_duration w)
      then py_bind (py_str (the (work_duration w)))
             (\<lambda>s. py_bind (duration_text_months (py_strip (py_lower s)))
               (\<lambda>workplace_months.
                  if 0 < workplace_months then Inr (total_months + workplace_months)
                  else months_from_fields w total_months))
      else months_from_fields w total_months)"

text \<open>\<open>except (ValueError, TypeError, AttributeError)\<close>.\<close>

definition caught :: "py_error \<Rightarrow> bool" where
  "caught e = (e = ValueError \<or> e = TypeError \<or> e = AttributeError)"

fun duration_loop :: "workplace list \<Rightarrow> int \<Rightarrow> py_error + int" where
  "duration_loop [] total_months = Inr total_months"
| "duration_loop (w # ws) total_months =
     (case workplace_body w total_months of
        Inr total_months' \<Rightarrow> duration_loop ws total_months'
      | Inl e \<Rightarrow> if caught e then duration_loop ws total_months else Inl e)"

definition calculate_total_experience_duration :: "workplace list \<Rightarrow> py_error + int" where
  "calculate_total_experience_duration workplaces =
     (if workplaces = [] then Inr 0 else duration_loop workplaces 0)"


section \<open>db/crud.py: the two year fields that save\_experience stores\<close>







text \<open>
  The number that a pattern finds in a text, as a float; 0 when the pattern does not
  match.
\<close>

definition found_number :: "string list \<Rightarrow> string \<Rightarrow> rat" where
  "found_number units t = (case re_search units t of None \<Rightarrow> 0 | Some g \<Rightarrow> float_of_decimal g)"






section \<open>Properties of the date functions\<close>

lemma decimal_not_space: "is_decimal c \<Longrightarrow> \<not> py_isspace c \<and> \<not> int_isspace c"
  by (auto simp: is_decimal_def py_isspace_def int_isspace_def)

lemma decimal_not_sign: "is_decimal c \<Longrightarrow> c \<noteq> CHR ''+'' \<and> c \<noteq> CHR ''-'' \<and> c \<noteq> CHR ''_''"
  by (auto simp: is_decimal_def)

lemma py_int_two_digits:
  assumes "is_decimal c1" and "is_decimal c2"
  shows "py_int_of_str [c1, c2] = Inr (10 * digit_val c1 + digit_val c2)"
proof -
  have "rev (dropWhile int_isspace (rev (dropWhile int_isspace [c1, c2]))) = [c1, c2]"
    using assms by (simp add: decimal_not_space)
  then show ?thesis
    using assms decimal_not_sign[OF assms(1)] decimal_not_sign[OF assms(2)]
    by (simp add: py_int_of_str_def digits_value_def int_max_str_digits_def)
qed

lemma normalize_date_unfold:
  "s \<noteq> [] \<Longrightarrow> normalize_date s =
     (let parts = py_split (CHR ''-'') (separators_to_hyphens s)
      in if length parts \<noteq> 3 then Inr (separators_to_hyphens s)
         else if length (parts ! 0) = 4 \<and> py_isdigit (parts ! 0)
           then Inr (py_zfill 2 (parts ! 2) @ ''-'' @ py_zfill 2 (parts ! 1) @ ''-'' @ parts ! 0)
         else if length (parts ! 2) = 2
           then (case py_int_of_str (parts ! 2) of
                   Inl e \<Rightarrow> Inl e
                 | Inr year_int \<Rightarrow>
                     Inr (py_zfill 2 (parts ! 0) @ ''-'' @ py_zfill 2 (parts ! 1) @ ''-'' @
                          (if 50 < year_int then ''19'' @ parts ! 2 else ''20'' @ parts ! 2)))
         else Inr (py_zfill 2 (parts ! 0) @ ''-'' @ py_zfill 2 (parts ! 1) @ ''-'' @ parts ! 2))"
  by (auto simp: normalize_date_def separators_to_hyphens_def Let_def split: sum.splits)

text \<open>
  Claim C5, as amended. \<open>normalize_date\<close> treats \<open>/\<close>, \<open>.\<close>, blank and \<open>-\<close> as
  separators. An input that does not split into exactly three parts is returned with the
  surrounding white space removed and the separators replaced by hyphens (not unchanged),
  and nothing is raised. With three parts of which the first is four digits, the parts are
  reordered from year-month-day to day-month-year and day and month are padded to two
  characters. Otherwise the order is kept, day and month are padded, a year of two decimal
  digits gets the prefix 19 when its value is above 50 and 20 otherwise, and a year whose
  length is not two is kept. The two examples of the claim hold.
\<close>

theorem normalize_date_cases:
  assumes "s \<noteq> []" and "py_split (CHR ''-'') (separators_to_hyphens s) = parts"
  shows "(length parts \<noteq> 3 \<longrightarrow> normalize_date s = Inr (separators_to_hyphens s)) \<and>
    (\<forall>y m d. parts = [y, m, d] \<and> length y = 4 \<and> py_isdigit y \<longrightarrow>
       normalize_date s = Inr (py_zfill 2 d @ ''-'' @ py_zfill 2 m @ ''-'' @ y)) \<and>
    (\<forall>d m c1 c2. parts = [d, m, [c1, c2]] \<and> \<not> (length d = 4 \<and> py_isdigit d) \<and>
         is_decimal c1 \<and> is_decimal c2 \<longrightarrow>
       normalize_date s = Inr (py_zfill 2 d @ ''-'' @ py_zfill 2 m @ ''-'' @
         (if 50 < 10 * digit_val c1 + digit_val c2 then ''19'' else ''20'') @ [c1, c2])) \<and>
    (\<forall>d m y. parts = [d, m, y] \<and> \<not> (length d = 4 \<and> py_isdigit d) \<and> length y \<noteq> 2 \<longrightarrow>
       normalize_date s = Inr (py_zfill 2 d @ ''-'' @ py_zfill 2 m @ ''-'' @ y)) \<and>
    normalize_date ''1987-12-01'' = Inr ''01-12-1987'' \<and>
    normalize_date ''1/2/87'' = Inr ''01-02-1987''"
proof -
  have ex1: "normalize_date ''1987-12-01'' = Inr ''01-12-1987''" by code_simp
  have ex2: "normalize_date ''1/2/87'' = Inr ''01-02-1987''" by code_simp
  have a: "length parts \<noteq> 3 \<longrightarrow> normalize_date s = Inr (separators_to_hyphens s)"
    using assms by (simp add: normalize_date_unfold)
  have b: "\<forall>y m d. parts = [y, m, d] \<and> length y = 4 \<and> py_isdigit y \<longrightarrow>
       normalize_date s = Inr (py_zfill 2 d @ ''-'' @ py_zfill 2 m @ ''-'' @ y)"
    using assms by (simp add: normalize_date_unfold)
  have c: "\<forall>d m c1 c2. parts = [d, m, [c1, c2]] \<and> \<not> (length d = 4 \<and> py_isdigit d) \<and>
         is_decimal c1 \<and> is_decimal c2 \<longrightarrow>
       normalize_date s = Inr (py_zfill 2 d @ ''-'' @ py_zfill 2 m @ ''-'' @
         (if 50 < 10 * digit_val c1 + digit_val c2 then ''19'' else ''20'') @ [c1, c2])"
    using assms by (auto simp: normalize_date_unfold py_int_two_digits)
  have d: "\<forall>d m y. parts = [d, m, y] \<and> \<not> (length d = 4 \<and> py_isdigit d) \<and> length y \<noteq> 2 \<longrightarrow>
       normalize_date s = Inr (py_zfill 2 d @ ''-'' @ py_zfill 2 m @ ''-'' @ y)"
    using assms by (auto simp: normalize_date_unfold)
  from a b c d ex1 ex2 show ?thesis by blast
qed

text \<open>The theorem applied to four concrete inputs, one for each case.\<close>

theorem normalize_date_cases_witness:
  "normalize_date ''3.4.49'' = Inr ''03-04-2049'' \<and>
   normalize_date ''  12 1987 '' = Inr ''12-1987'' \<and>
   normalize_date ''2001/7/9'' = Inr ''09-07-2001'' \<and>
   normalize_date ''5-6-1999'' = Inr ''05-06-1999''"
proof -
  have p1: "py_split (CHR ''-'') (separators_to_hyphens ''3.4.49'') = [''3'', ''4'', ''49'']" by code_simp
  have p2: "py_split (CHR ''-'') (separators_to_hyphens ''  12 1987 '') = [''12'', ''1987'']" by code_simp
  have p3: "py_split (CHR ''-'') (separators_to_hyphens ''2001/7/9'') = [''2001'', ''7'', ''9'']" by code_simp
  have p4: "py_split (CHR ''-'') (separators_to_hyphens ''5-6-1999'') = [''5'', ''6'', ''1999'']" by code_simp
  have s2: "separators_to_hyphens ''  12 1987 '' = ''12-1987''" by code_simp
  have d1: "is_decimal (CHR ''4'')" "is_decimal (CHR ''9'')" "py_isdigit ''2001''"
    by code_simp+
  have v: "\<not> 50 < 10 * digit_val (CHR ''4'') + digit_val (CHR ''9'')" by code_simp
  have z: "py_zfill 2 ''3'' = ''03''" "py_zfill 2 ''4'' = ''04''" "py_zfill 2 ''7'' = ''07''"
     "py_zfill 2 ''9'' = ''09''" "py_zfill 2 ''5'' = ''05''" "py_zfill 2 ''6'' = ''06''"
    by code_simp+
  show ?thesis
    using normalize_date_cases[OF _ p1] normalize_date_cases[OF _ p2]
      normalize_date_cases[OF _ p3] normalize_date_cases[OF _ p4] s2 d1 v z
    by simp
qed

text \<open>
  Claim C5 as stated fails: \<open>12/1987\<close> splits into two parts and is not returned
  unchanged, the slash comes back as a hyphen.
\<close>

theorem normalize_date_not_unchanged:
  "length (py_split (CHR ''-'') (separators_to_hyphens ''12/1987'')) = 2 \<and>
   normalize_date ''12/1987'' = Inr ''12-1987'' \<and>
   normalize_date ''12/1987'' \<noteq> Inr ''12/1987''"
  by code_simp

lemma normalize_date_raises_iff:
  "(\<exists>e. normalize_date s = Inl e) \<longleftrightarrow>
   (s \<noteq> [] \<and>
    (let parts = py_split (CHR ''-'') (separators_to_hyphens s)
     in length parts = 3 \<and> \<not> (length (parts ! 0) = 4 \<and> py_isdigit (parts ! 0)) \<and>
        length (parts ! 2) = 2 \<and> py_int_of_str (parts ! 2) = Inl ValueError))"
proof (cases "s = []")
  case True
  then show ?thesis by (simp add: normalize_date_def)
next
  case False
  have "py_int_of_str t = Inl e \<Longrightarrow> e = ValueError" for t e
    by (auto simp: py_int_of_str_def Let_def split: if_splits)
  then show ?thesis
    using False by (auto simp: normalize_date_unfold Let_def split: sum.splits)
qed

text \<open>
  Claim C4. \<open>exact_match_dob\<close> returns false with the missing-data message when either
  date is empty (\<open>None\<close> or the empty string). Otherwise it returns true exactly when
  \<open>normalize_date\<close> yields the same string for both, and false with the mismatch message
  when it yields two different strings; it raises exactly when \<open>normalize_date\<close> raises on
  one of them. The dates \<open>01-12-1987\<close> and \<open>1-12-87\<close> both normalize to \<open>01-12-1987\<close> and
  match.
\<close>

theorem exact_match_dob_spec:
  "(py_not dob1 \<or> py_not dob2 \<longrightarrow>
      exact_match_dob dob1 dob2 = Inr (False, ''One or both DOBs are missing'')) \<and>
   (\<not> py_not dob1 \<and> \<not> py_not dob2 \<longrightarrow>
      ((\<exists>msg. exact_match_dob dob1 dob2 = Inr (True, msg)) \<longleftrightarrow>
       (\<exists>n. normalize_date (the dob1) = Inr n \<and> normalize_date (the dob2) = Inr n)) \<and>
      (\<forall>n1 n2. normalize_date (the dob1) = Inr n1 \<and> normalize_date (the dob2) = Inr n2 \<and>
          n1 \<noteq> n2 \<longrightarrow>
        exact_match_dob dob1 dob2 = Inr (False, ''DOB mismatch: '' @ n1 @ '' vs '' @ n2)) \<and>
      ((\<exists>e. exact_match_dob dob1 dob2 = Inl e) \<longleftrightarrow>
       (\<exists>e. normalize_date (the dob1) = Inl e) \<or> (\<exists>e. normalize_date (the dob2) = Inl e))) \<and>
   normalize_date ''01-12-1987'' = Inr ''01-12-1987'' \<and>
   normalize_date ''1-12-87'' = Inr ''01-12-1987'' \<and>
   exact_match_dob (Some ''01-12-1987'') (Some ''1-12-87'') = Inr (True, ''DOBs match'')"
proof -
  have ex: "normalize_date ''01-12-1987'' = Inr ''01-12-1987''"
    "normalize_date ''1-12-87'' = Inr ''01-12-1987''"
    by code_simp+
  have ex3: "exact_match_dob (Some ''01-12-1987'') (Some ''1-12-87'') = Inr (True, ''DOBs match'')"
    by (simp add: exact_match_dob_def py_not_def ex)
  have a: "py_not dob1 \<or> py_not dob2 \<longrightarrow>
      exact_match_dob dob1 dob2 = Inr (False, ''One or both DOBs are missing'')"
    by (simp add: exact_match_dob_def)
  have b: "\<not> py_not dob1 \<and> \<not> py_not dob2 \<longrightarrow>
      ((\<exists>msg. exact_match_dob dob1 dob2 = Inr (True, msg)) \<longleftrightarrow>
       (\<exists>n. normalize_date (the dob1) = Inr n \<and> normalize_date (the dob2) = Inr n))"
    by (auto simp: exact_match_dob_def split: sum.splits)
  have c: "\<not> py_not dob1 \<and> \<not> py_not dob2 \<longrightarrow>
      (\<forall>n1 n2. normalize_date (the dob1) = Inr n1 \<and> normalize_date (the dob2) = Inr n2 \<and>
          n1 \<noteq> n2 \<longrightarrow>
        exact_match_dob dob1 dob2 = Inr (False, ''DOB mismatch: '' @ n1 @ '' vs '' @ n2))"
    by (auto simp: exact_match_dob_def split: sum.splits)
  have d: "\<not> py_not dob1 \<and> \<not> py_not dob2 \<longrightarrow>
      ((\<exists>e. exact_match_dob dob1 dob2 = Inl e) \<longleftrightarrow>
       (\<exists>e. normalize_date (the dob1) = Inl e) \<or> (\<exists>e. normalize_date (the dob2) = Inl e))"
    by (auto simp: exact_match_dob_def split: sum.splits)
  from a b c d ex ex3 show ?thesis by blast
qed

text \<open>The theorem applied to a missing date, an empty date, two different dates and two equal ones.\<close>

theorem exact_match_dob_spec_witness:
  "exact_match_dob None (Some ''01-12-1987'') = Inr (False, ''One or both DOBs are missing'') \<and>
   exact_match_dob (Some ''01-12-1987'') (Some []) = Inr (False, ''One or both DOBs are missing'') \<and>
   exact_match_dob (Some ''01-12-1987'') (Some ''01-12-1988'') =
     Inr (False, ''DOB mismatch: 01-12-1987 vs 01-12-1988'') \<and>
   (\<exists>msg. exact_match_dob (Some ''1987-12-01'') (Some ''1.12.87'') = Inr (True, msg))"
proof -
  have n: "normalize_date ''01-12-1987'' = Inr ''01-12-1987''"
    "normalize_date ''01-12-1988'' = Inr ''01-12-1988''"
    "normalize_date ''1987-12-01'' = Inr ''01-12-1987''"
    "normalize_date ''1.12.87'' = Inr ''01-12-1987''"
    by code_simp+
  show ?thesis
    using exact_match_dob_spec[of None "Some ''01-12-1987''"]
      exact_match_dob_spec[of "Some ''01-12-1987''" "Some []"]
      exact_match_dob_spec[of "Some ''01-12-1987''" "Some ''01-12-1988''"]
      exact_match_dob_spec[of "Some ''1987-12-01''" "Some ''1.12.87''"] n
    by (simp add: py_not_def)
qed

text \<open>
  A year of two characters that \<open>int()\<close> rejects makes \<open>normalize_date\<close>, and with it
  \<open>exact_match_dob\<close>, raise ValueError.
\<close>

lemma exact_match_dob_raises_example:
  "exact_match_dob (Some ''01-12-8T'') (Some ''01-12-87'') = Inl ValueError"
  by code_simp


section \<open>Properties of the name score\<close>

text \<open>The sum of the sizes of a list of blocks: the \<open>matches\<close> of \<open>ratio()\<close>.\<close>

abbreviation block_sizes :: "match list \<Rightarrow> int" where
  "block_sizes ms \<equiv> sum_list (map (\<lambda>(i, j, k). k) ms)"

lemma mb_loop_sizes:
  assumes "\<forall>(alo, ahi, blo, bhi) \<in> set queue. alo \<le> ahi \<and> blo \<le> bhi"
  shows "block_sizes mbs \<le> block_sizes (mb_loop a b b2j queue mbs) \<and>
         block_sizes (mb_loop a b b2j queue mbs) \<le>
           block_sizes mbs + sum_list (map (\<lambda>(alo, ahi, blo, bhi). ahi - alo) queue) \<and>
         block_sizes (mb_loop a b b2j queue mbs) \<le>
           block_sizes mbs + sum_list (map (\<lambda>(alo, ahi, blo, bhi). bhi - blo) queue)"
  using assms
proof (induction a b b2j queue mbs rule: mb_loop.induct)
  case (1 a b b2j matching_blocks)
  then show ?case by (simp add: mb_loop.simps)
next
  case (2 a b b2j alo ahi blo bhi queue matching_blocks)
  obtain i j k where flm: "find_longest_match a b b2j alo ahi blo bhi = (i, j, k)"
    by (cases "find_longest_match a b b2j alo ahi blo bhi")
  note bnd = find_longest_match_bounds[OF flm]
  have wf: "alo \<le> ahi" "blo \<le> bhi" and wfq: "\<forall>(alo, ahi, blo, bhi) \<in> set queue. alo \<le> ahi \<and> blo \<le> bhi"
    using "2.prems" by auto
  show ?case
  proof (cases "k = 0")
    case True
    have "mb_loop a b b2j ((alo, ahi, blo, bhi) # queue) matching_blocks = mb_loop a b b2j queue matching_blocks"
      using flm True by (simp add: mb_loop.simps)
    moreover note "2.IH"(2)[OF flm[symmetric] refl _ wfq] wf
    ultimately show ?thesis using True by auto
  next
    case False
    define q' where "q' = (if i + k < ahi \<and> j + k < bhi then [(i + k, ahi, j + k, bhi)] else []) @
                  (if alo < i \<and> blo < j then [(alo, i, blo, j)] else []) @ queue"
    have eq: "mb_loop a b b2j ((alo, ahi, blo, bhi) # queue) matching_blocks =
          mb_loop a b b2j q' (matching_blocks @ [(i, j, k)])"
      using flm False by (simp add: mb_loop.simps q'_def)
    have wf': "\<forall>(alo, ahi, blo, bhi) \<in> set q'. alo \<le> ahi \<and> blo \<le> bhi"
      using wfq by (auto simp: q'_def)
    have sa: "sum_list (map (\<lambda>(alo, ahi, blo, bhi). ahi - alo) q') \<le>
        ahi - alo - k + sum_list (map (\<lambda>(alo, ahi, blo, bhi). ahi - alo) queue)"
      using bnd False by (auto simp: q'_def)
    have sb: "sum_list (map (\<lambda>(alo, ahi, blo, bhi). bhi - blo) q') \<le>
        bhi - blo - k + sum_list (map (\<lambda>(alo, ahi, blo, bhi). bhi - blo) queue)"
      using bnd False by (auto simp: q'_def)
    have ih: "block_sizes (matching_blocks @ [(i, j, k)]) \<le> block_sizes (mb_loop a b b2j q' (matching_blocks @ [(i, j, k)])) \<and>
         block_sizes (mb_loop a b b2j q' (matching_blocks @ [(i, j, k)])) \<le>
           block_sizes (matching_blocks @ [(i, j, k)]) + sum_list (map (\<lambda>(alo, ahi, blo, bhi). ahi - alo) q') \<and>
         block_sizes (mb_loop a b b2j q' (matching_blocks @ [(i, j, k)])) \<le>
           block_sizes (matching_blocks @ [(i, j, k)]) + sum_list (map (\<lambda>(alo, ahi, blo, bhi). bhi - blo) q')"
      using "2.IH"(1)[OF flm[symmetric] refl False] wf' unfolding q'_def by blast
    have k: "block_sizes (matching_blocks @ [(i, j, k)]) = block_sizes matching_blocks + k"
      by simp
    have hd: "sum_list (map (\<lambda>(alo, ahi, blo, bhi). ahi - alo) ((alo, ahi, blo, bhi) # queue)) =
          ahi - alo + sum_list (map (\<lambda>(alo, ahi, blo, bhi). ahi - alo) queue)"
        "sum_list (map (\<lambda>(alo, ahi, blo, bhi). bhi - blo) ((alo, ahi, blo, bhi) # queue)) =
          bhi - blo + sum_list (map (\<lambda>(alo, ahi, blo, bhi). bhi - blo) queue)"
      by simp_all
    show ?thesis
      unfolding eq hd using ih sa sb bnd unfolding k by linarith
  qed
qed

lemma sizes_insort: "block_sizes (insort_key f x xs) = block_sizes [x] + block_sizes xs"
  by (induction xs) auto

lemma sizes_sort: "block_sizes (sort_key f xs) = block_sizes xs"
  by (induction xs) (auto simp: sizes_insort)

lemma sizes_collapse:
  "collapse_adjacent m non_adjacent rest = (m', non_adjacent') \<Longrightarrow>
   block_sizes non_adjacent' + block_sizes [m'] = block_sizes non_adjacent + block_sizes [m] + block_sizes rest"
proof (induction m non_adjacent rest rule: collapse_adjacent.induct)
  case (1 i1 j1 k1 non_adjacent)
  then show ?case by auto
next
  case (2 i1 j1 k1 non_adjacent i2 j2 k2 rest)
  then show ?case by (auto split: if_splits)
qed

lemma sizes_get_matching_blocks:
  "block_sizes (get_matching_blocks a b) =
   block_sizes (mb_loop a b (chain_b b) [(0, int (length a), 0, int (length b))] [])"
proof -
  obtain m' na where c: "collapse_adjacent (0, 0, 0) []
      (sort (mb_loop a b (chain_b b) [(0, int (length a), 0, int (length b))] [])) = (m', na)"
    by (cases "collapse_adjacent (0, 0, 0) []
      (sort (mb_loop a b (chain_b b) [(0, int (length a), 0, int (length b))] []))")
  obtain i1 j1 k1 where m': "m' = (i1, j1, k1)" by (cases m')
  from sizes_collapse[OF c] have "block_sizes na + k1 =
      block_sizes (mb_loop a b (chain_b b) [(0, int (length a), 0, int (length b))] [])"
    by (simp add: m' sizes_sort)
  then show ?thesis
    by (simp add: get_matching_blocks_def Let_def c m')
qed

lemma matches_bounds:
  "0 \<le> block_sizes (get_matching_blocks a b) \<and>
   block_sizes (get_matching_blocks a b) \<le> int (length a) \<and>
   block_sizes (get_matching_blocks a b) \<le> int (length b)"
  using mb_loop_sizes[of "[(0, int (length a), 0, int (length b))]" "[]" a b "chain_b b"]
  by (simp add: sizes_get_matching_blocks)

lemma ratio_range: "0 \<le> ratio a b \<and> ratio a b \<le> 1"
proof -
  define m where "m = block_sizes (get_matching_blocks a b)"
  have m: "0 \<le> m" "m \<le> int (length a)" "m \<le> int (length b)"
    using matches_bounds[of a b] by (simp_all add: m_def)
  show ?thesis
  proof (cases "int (length a) + int (length b) = 0")
    case True
    then show ?thesis by (simp add: ratio_def calculate_ratio_def)
  next
    case False
    then have pos: "0 < int (length a) + int (length b)" by simp
    have "2 * m \<le> int (length a) + int (length b)" using m by simp
    then have "(2 * of_int m :: rat) \<le> of_int (int (length a) + int (length b))"
      by (metis of_int_le_iff of_int_mult of_int_numeral)
    moreover have "(0 :: rat) < of_int (int (length a) + int (length b))" using pos by simp
    ultimately have "2 * of_int m / (of_int (int (length a) + int (length b)) :: rat) \<le> 1"
      by (simp add: divide_le_eq)
    moreover have "(0 :: rat) \<le> 2 * of_int m / of_int (int (length a) + int (length b))"
      using m(1) pos by simp
    ultimately show ?thesis
      using False by (simp add: ratio_def calculate_ratio_def m_def[symmetric])
  qed
qed

text \<open>
  Claim C3. \<open>fuzzy_match_names\<close> returns \<open>(False, 0.0)\<close> when either name is empty
  (\<open>None\<close> or the empty string). When both are given and their normalized forms are equal
  it returns \<open>(True, 1.0)\<close>. Otherwise the score is the ratio of the two normalized forms
  and the names match exactly when the score is at least the threshold; at the default
  threshold 0.85 a pair whose ratio is 0.84 does not match and a pair whose ratio is 0.86
  matches.
\<close>

theorem fuzzy_match_names_spec:
  "(py_not name1 \<or> py_not name2 \<longrightarrow> fuzzy_match_names name1 name2 threshold = (False, 0)) \<and>
   (\<not> py_not name1 \<and> \<not> py_not name2 \<and> normalize_name name1 = normalize_name name2 \<longrightarrow>
      fuzzy_match_names name1 name2 threshold = (True, 1)) \<and>
   (\<not> py_not name1 \<and> \<not> py_not name2 \<and> normalize_name name1 \<noteq> normalize_name name2 \<longrightarrow>
      fuzzy_match_names name1 name2 threshold =
        (threshold \<le> ratio (normalize_name name1) (normalize_name name2),
         ratio (normalize_name name1) (normalize_name name2))) \<and>
   (\<not> py_not name1 \<and> \<not> py_not name2 \<and> normalize_name name1 \<noteq> normalize_name name2 \<and>
      ratio (normalize_name name1) (normalize_name name2) = 84 / 100 \<longrightarrow>
      fuzzy_match_names name1 name2 default_threshold = (False, 84 / 100)) \<and>
   (\<not> py_not name1 \<and> \<not> py_not name2 \<and> normalize_name name1 \<noteq> normalize_name name2 \<and>
      ratio (normalize_name name1) (normalize_name name2) = 86 / 100 \<longrightarrow>
      fuzzy_match_names name1 name2 default_threshold = (True, 86 / 100))"
  by (simp add: fuzzy_match_names_def default_threshold_def Let_def)

text \<open>
  The theorem applied to a missing name, an empty name, two names with the same normalized
  form, a pair that scores 8/9, a pair that scores exactly 0.84 and one that scores exactly
  0.86.
\<close>

theorem fuzzy_match_names_spec_witness:
  "fuzzy_match_names None (Some ''Babu Khan'') default_threshold = (False, 0) \<and>
   fuzzy_match_names (Some ''Babu Khan'') (Some []) default_threshold = (False, 0) \<and>
   fuzzy_match_names (Some ''Babu Khan'') (Some ''BABU  KHAN'') default_threshold = (True, 1) \<and>
   fuzzy_match_names (Some ''Babu Khan'') (Some ''Babu Khna'') default_threshold = (True, 8 / 9) \<and>
   fuzzy_match_names (Some ''ABCDEFGHIJKLMNOPQRSTUZZZZ'') (Some ''ABCDEFGHIJKLMNOPQRSTUYYYY'')
     default_threshold = (False, 84 / 100) \<and>
   fuzzy_match_names (Some ''ABCDEFGHIJKLMNOPQRSTUVWXYABCDEFGHIJKLMNOPQRZZZZZZZ'')
     (Some ''ABCDEFGHIJKLMNOPQRSTUVWXYABCDEFGHIJKLMNOPQRYYYYYYY'') default_threshold = (True, 86 / 100)"
proof -
  have n: "normalize_name (Some ''Babu Khan'') = ''BABU KHAN''"
    "normalize_name (Some ''BABU  KHAN'') = ''BABU KHAN''"
    "normalize_name (Some ''Babu Khna'') = ''BABU KHNA''"
    "normalize_name (Some ''ABCDEFGHIJKLMNOPQRSTUZZZZ'') = ''ABCDEFGHIJKLMNOPQRSTUZZZZ''"
    "normalize_name (Some ''ABCDEFGHIJKLMNOPQRSTUYYYY'') = ''ABCDEFGHIJKLMNOPQRSTUYYYY''"
    "normalize_name (Some ''ABCDEFGHIJKLMNOPQRSTUVWXYABCDEFGHIJKLMNOPQRZZZZZZZ'') =
       ''ABCDEFGHIJKLMNOPQRSTUVWXYABCDEFGHIJKLMNOPQRZZZZZZZ''"
    "normalize_name (Some ''ABCDEFGHIJKLMNOPQRSTUVWXYABCDEFGHIJKLMNOPQRYYYYYYY'') =
       ''ABCDEFGHIJKLMNOPQRSTUVWXYABCDEFGHIJKLMNOPQRYYYYYYY''"
    by code_simp+
  have r: "ratio ''BABU KHAN'' ''BABU KHNA'' = 8 / 9"
    "ratio ''ABCDEFGHIJKLMNOPQRSTUZZZZ'' ''ABCDEFGHIJKLMNOPQRSTUYYYY'' = 84 / 100"
    "ratio ''ABCDEFGHIJKLMNOPQRSTUVWXYABCDEFGHIJKLMNOPQRZZZZZZZ''
       ''ABCDEFGHIJKLMNOPQRSTUVWXYABCDEFGHIJKLMNOPQRYYYYYYY'' = 86 / 100"
    by code_simp+
  have t: "default_threshold \<le> 8 / 9" by (simp add: default_threshold_def)
  show ?thesis
    using fuzzy_match_names_spec[of None "Some ''Babu Khan''" default_threshold]
      fuzzy_match_names_spec[of "Some ''Babu Khan''" "Some []" default_threshold]
      fuzzy_match_names_spec[of "Some ''Babu Khan''" "Some ''BABU  KHAN''" default_threshold]
      fuzzy_match_names_spec[of "Some ''Babu Khan''" "Some ''Babu Khna''" default_threshold]
      fuzzy_match_names_spec[of "Some ''ABCDEFGHIJKLMNOPQRSTUZZZZ''" "Some ''ABCDEFGHIJKLMNOPQRSTUYYYY''" default_threshold]
      fuzzy_match_names_spec[of "Some ''ABCDEFGHIJKLMNOPQRSTUVWXYABCDEFGHIJKLMNOPQRZZZZZZZ''"
        "Some ''ABCDEFGHIJKLMNOPQRSTUVWXYABCDEFGHIJKLMNOPQRYYYYYYY''" default_threshold]
      n r t
    by (simp add: py_not_def default_threshold_def)
qed

text \<open>
  Claim C8, as amended. For every pair of names, and so for every pair of non-empty names
  whose normalized forms differ, the score that \<open>fuzzy_match_names\<close> returns lies between
  0 and 1. Symmetry is not part of the amended claim.
\<close>

theorem similarity_in_unit_interval:
  "0 \<le> snd (fuzzy_match_names name1 name2 threshold) \<and>
   snd (fuzzy_match_names name1 name2 threshold) \<le> 1"
  using ratio_range[of "normalize_name name1" "normalize_name name2"]
  by (simp add: fuzzy_match_names_def Let_def)

text \<open>
  Claim C8 as stated fails: the score depends on the order of the two names. The names
  \<open>tide\<close> and \<open>diet\<close> are non-empty and differ after normalization; \<open>tide\<close> against \<open>diet\<close>
  scores 0.25 and \<open>diet\<close> against \<open>tide\<close> scores 0.5, so at the threshold 0.4 the verdict
  depends on the order too.
\<close>

theorem similarity_not_symmetric:
  "\<not> py_not (Some ''tide'') \<and> \<not> py_not (Some ''diet'') \<and>
   normalize_name (Some ''tide'') \<noteq> normalize_name (Some ''diet'') \<and>
   snd (fuzzy_match_names (Some ''tide'') (Some ''diet'') default_threshold) = 1 / 4 \<and>
   snd (fuzzy_match_names (Some ''diet'') (Some ''tide'') default_threshold) = 1 / 2 \<and>
   fst (fuzzy_match_names (Some ''tide'') (Some ''diet'') (2 / 5)) = False \<and>
   fst (fuzzy_match_names (Some ''diet'') (Some ''tide'') (2 / 5)) = True"
  by code_simp


section \<open>Properties of verify\_documents\<close>

lemma doc_overall_match_cases:
  "doc_overall_match pn pd d = Inr m \<Longrightarrow>
   \<exists>dob_ok msg. exact_match_dob pd (extracted_dob d) = Inr (dob_ok, msg) \<and>
     m = (fst (fuzzy_match_names pn (extracted_name d) default_threshold) \<and> dob_ok)"
  by (auto simp: doc_overall_match_def split: sum.splits)

lemma verify_loop_returns:
  assumes "\<forall>d \<in> set docs. \<exists>m. doc_overall_match pn pd d = Inr m"
  shows "\<exists>cs ms. verify_loop pn pd docs (c0, m0, n0) =
           Inr (c0 @ cs, ms,
                n0 + int (length (filter (\<lambda>d. doc_overall_match pn pd d = Inr True) docs))) \<and>
         map overall_match cs = map (\<lambda>d. doc_overall_match pn pd d = Inr True) docs \<and>
         map document_id cs = map doc_id docs"
  using assms
proof (induction docs arbitrary: c0 m0 n0)
  case Nil
  then show ?case by simp
next
  case (Cons d docs)
  from Cons.prems obtain m where m: "doc_overall_match pn pd d = Inr m" by auto
  from doc_overall_match_cases[OF m] obtain dob_ok msg where
    dob: "exact_match_dob pd (extracted_dob d) = Inr (dob_ok, msg)" and
    mm: "m = (fst (fuzzy_match_names pn (extracted_name d) default_threshold) \<and> dob_ok)"
    by blast
  define c where "c = \<lparr>document_id = doc_id d,
      comparison_qualification = (case qualification d of None \<Rightarrow> ''Unknown'' | Some q \<Rightarrow> q),
      name_match = fst (fuzzy_match_names pn (extracted_name d) default_threshold),
      name_similarity = py_round (snd (fuzzy_match_names pn (extracted_name d) default_threshold)) 3,
      dob_match = dob_ok, overall_match = m\<rparr>"
  obtain m1 where step: "verify_loop pn pd (d # docs) (c0, m0, n0) =
      verify_loop pn pd docs (c0 @ [c], m1, (if m then n0 + 1 else n0))"
    by (simp add: dob Let_def c_def mm)
  from Cons.prems have rest: "\<forall>d \<in> set docs. \<exists>m. doc_overall_match pn pd d = Inr m" by simp
  from Cons.IH[OF rest, of "c0 @ [c]" m1 "if m then n0 + 1 else n0"]
  obtain cs ms where ih: "verify_loop pn pd docs (c0 @ [c], m1, (if m then n0 + 1 else n0)) =
      Inr ((c0 @ [c]) @ cs, ms,
        (if m then n0 + 1 else n0) +
          int (length (filter (\<lambda>d. doc_overall_match pn pd d = Inr True) docs)))"
    and om: "map overall_match cs = map (\<lambda>d. doc_overall_match pn pd d = Inr True) docs"
    and ids: "map document_id cs = map doc_id docs"
    by blast
  have "verify_loop pn pd (d # docs) (c0, m0, n0) =
      Inr (c0 @ (c # cs), ms,
        n0 + int (length (filter (\<lambda>d. doc_overall_match pn pd d = Inr True) (d # docs))))"
    using step ih m by (cases m) simp_all
  moreover have "map overall_match (c # cs) = map (\<lambda>d. doc_overall_match pn pd d = Inr True) (d # docs)"
    using om m by (simp add: c_def)
  moreover have "map document_id (c # cs) = map doc_id (d # docs)"
    using ids by (simp add: c_def)
  ultimately show ?case by blast
qed

lemma verify_loop_raises:
  assumes "d \<in> set docs" and "doc_overall_match pn pd d = Inl e"
  shows "\<exists>e'. verify_loop pn pd docs st = Inl e'"
  using assms
proof (induction docs arbitrary: st)
  case Nil
  then show ?case by simp
next
  case (Cons x docs)
  obtain c0 m0 n0 where st: "st = (c0, m0, n0)" by (cases st)
  show ?case
  proof (cases "exact_match_dob pd (extracted_dob x)")
    case (Inl e')
    then show ?thesis by (simp add: st)
  next
    case (Inr r)
    then have "doc_overall_match pn pd x \<noteq> Inl e"
      by (cases r) (simp add: doc_overall_match_def)
    with Cons.prems have "d \<in> set docs" by auto
    from Cons.IH[OF this Cons.prems(2)] show ?thesis
      using Inr by (cases r) (simp add: st Let_def)
  qed
qed

lemma filter_all_length:
  "(length (filter P xs) = length xs) = (\<forall>x \<in> set xs. P x)"
  by (metis filter_id_conv length_filter_less less_irrefl)

lemma verify_documents_returns:
  assumes "\<not> py_not personal_name" and "\<not> py_not personal_dob" and "docs \<noteq> []"
    and "\<forall>d \<in> set docs. \<exists>m. doc_overall_match personal_name personal_dob d = Inr m"
  shows "\<exists>r. verify_documents personal_name personal_dob docs = Inr r \<and>
     map overall_match (comparisons r) =
       map (\<lambda>d. doc_overall_match personal_name personal_dob d = Inr True) docs \<and>
     map document_id (comparisons r) = map doc_id docs \<and>
     status r = (if \<forall>d \<in> set docs. doc_overall_match personal_name personal_dob d = Inr True
                 then ''verified'' else ''failed'') \<and>
     verified_count r =
       int (length (filter (\<lambda>d. doc_overall_match personal_name personal_dob d = Inr True) docs)) \<and>
     total_count r = int (length docs)"
proof -
  let ?P = "\<lambda>d. doc_overall_match personal_name personal_dob d = Inr True"
  from verify_loop_returns[OF assms(4), of "[]" "[]" 0]
  obtain cs ms where loop: "verify_loop personal_name personal_dob docs ([], [], 0) =
      Inr (cs, ms, int (length (filter ?P docs)))"
    and om: "map overall_match cs = map ?P docs"
    and ids: "map document_id cs = map doc_id docs"
    by auto
  define r where "r = \<lparr>status = (if int (length (filter ?P docs)) = int (length docs)
        then ''verified'' else ''failed''),
      verified_count = int (length (filter ?P docs)), total_count = int (length docs),
      comparisons = cs, mismatches = ms, error = None\<rparr>"
  have res: "verify_documents personal_name personal_dob docs = Inr r"
    using assms(1-3) loop by (simp add: verify_documents_def r_def Let_def)
  have st: "status r = (if \<forall>d \<in> set docs. ?P d then ''verified'' else ''failed'')"
    using filter_all_length[of ?P docs] by (simp add: r_def)
  show ?thesis
    using res om ids st by (intro exI[of _ r]) (simp add: r_def)
qed



text \<open>
  When the date comparison of a document raises, \<open>verify_documents\<close> raises and returns no
  status.
\<close>

lemma verify_documents_raises:
  assumes "\<not> py_not personal_name" and "\<not> py_not personal_dob" and "d \<in> set docs"
    and "doc_overall_match personal_name personal_dob d = Inl e"
  shows "\<exists>e'. verify_documents personal_name personal_dob docs = Inl e'"
proof -
  from verify_loop_raises[OF assms(3,4)] obtain e' where
    "verify_loop personal_name personal_dob docs ([], [], 0) = Inl e'" by blast
  moreover have "docs \<noteq> []" using assms(3) by auto
  ultimately show ?thesis using assms(1,2) by (simp add: verify_documents_def)
qed

text \<open>
  Claim C6. When the personal name is empty, the personal date of birth is empty or the
  list of educational documents is empty, \<open>verify_documents\<close> returns (it raises nothing) a
  result with status \<open>pending\<close>, no comparisons, no mismatches, \<open>verified_count\<close> 0 and a
  non-empty \<open>error\<close> text.
\<close>

theorem verify_documents_pending:
  assumes "py_not personal_name \<or> py_not personal_dob \<or> docs = []"
  shows "\<exists>r. verify_documents personal_name personal_dob docs = Inr r \<and>
     status r = ''pending'' \<and> comparisons r = [] \<and> mismatches r = [] \<and>
     verified_count r = 0 \<and> (\<exists>msg. error r = Some msg \<and> msg \<noteq> [])"
  using assms by (auto simp: verify_documents_def)

text \<open>
  The theorem applied to an empty date of birth (with a document whose date could not be
  normalized), to a missing name and to an empty list of documents.
\<close>

theorem verify_documents_pending_witness:
  "(\<exists>r. verify_documents (Some ''A'') (Some [])
          [\<lparr>doc_id = 1, qualification = None, extracted_name = Some ''A'',
            extracted_dob = Some ''01-01-8T''\<rparr>] = Inr r \<and>
        status r = ''pending'' \<and> comparisons r = [] \<and> mismatches r = [] \<and>
        verified_count r = 0 \<and> (\<exists>msg. error r = Some msg \<and> msg \<noteq> [])) \<and>
   (\<exists>r. verify_documents None (Some ''01-12-1987'') [] = Inr r \<and>
        status r = ''pending'' \<and> comparisons r = [] \<and> mismatches r = [] \<and>
        verified_count r = 0 \<and> (\<exists>msg. error r = Some msg \<and> msg \<noteq> [])) \<and>
   (\<exists>r. verify_documents (Some ''A'') (Some ''01-12-1987'') [] = Inr r \<and>
        status r = ''pending'' \<and> comparisons r = [] \<and> mismatches r = [] \<and>
        verified_count r = 0 \<and> (\<exists>msg. error r = Some msg \<and> msg \<noteq> []))"
  using verify_documents_pending[of "Some ''A''" "Some []"
      "[\<lparr>doc_id = 1, qualification = None, extracted_name = Some ''A'',
            extracted_dob = Some ''01-01-8T''\<rparr>]"]
    verify_documents_pending[of None "Some ''01-12-1987''" "[]"]
    verify_documents_pending[of "Some ''A''" "Some ''01-12-1987''" "[]"]
  by (simp add: py_not_def)


section \<open>The year fields agree\<close>








section \<open>Properties of the persisted verification state\<close>

lemma update_document_other:
  "i \<noteq> j \<Longrightarrow>
   educational_documents (update_educational_document_verification j st e db) i =
   educational_documents db i"
  by (simp add: update_educational_document_verification_def split: option.splits)

lemma update_document_same:
  "educational_documents db i = Some row \<Longrightarrow>
   educational_documents (update_educational_document_verification i st e db) i =
   Some \<lparr>verification_status = Some st, verification_errors = e\<rparr>"
  by (simp add: update_educational_document_verification_def)

lemma update_document_present:
  "educational_documents db i \<noteq> None \<Longrightarrow>
   educational_documents (update_educational_document_verification j st e db) i \<noteq> None"
  by (simp add: update_educational_document_verification_def split: option.splits)

lemma update_document_worker:
  "worker_verification_status (update_educational_document_verification j st e db) =
   worker_verification_status db"
  by (simp add: update_educational_document_verification_def split: option.splits)

abbreviation mark_failed :: "mismatch list \<Rightarrow> database \<Rightarrow> database" where
  "mark_failed ms db \<equiv>
     fold (\<lambda>m db. update_educational_document_verification (mismatch_document_id m) ''failed''
                     (Some (field m, reason m)) db) ms db"

abbreviation mark_verified :: "comparison list \<Rightarrow> database \<Rightarrow> database" where
  "mark_verified cs db \<equiv>
     fold (\<lambda>comp db. if overall_match comp
                      then update_educational_document_verification (document_id comp) ''verified'' None db
                      else db) cs db"

lemma mark_failed_other:
  "i \<notin> mismatch_document_id ` set ms \<Longrightarrow>
   educational_documents (mark_failed ms db) i = educational_documents db i"
  by (induction ms arbitrary: db) (auto simp: update_document_other)

lemma mark_failed_present:
  "educational_documents db i \<noteq> None \<Longrightarrow> educational_documents (mark_failed ms db) i \<noteq> None"
proof (induction ms arbitrary: db)
  case Nil
  then show ?case by simp
next
  case (Cons m ms)
  from Cons.prems have "educational_documents
      (update_educational_document_verification (mismatch_document_id m) ''failed''
        (Some (field m, reason m)) db) i \<noteq> None"
    by (rule update_document_present)
  from Cons.IH[OF this] show ?case by simp
qed

lemma mark_failed_worker:
  "worker_verification_status (mark_failed ms db) = worker_verification_status db"
  by (induction ms arbitrary: db) (auto simp: update_document_worker)

lemma mark_verified_present:
  "educational_documents db i \<noteq> None \<Longrightarrow> educational_documents (mark_verified cs db) i \<noteq> None"
proof (induction cs arbitrary: db)
  case Nil
  then show ?case by simp
next
  case (Cons c cs)
  have "educational_documents
      (if overall_match c
       then update_educational_document_verification (document_id c) ''verified'' None db
       else db) i \<noteq> None"
    using Cons.prems update_document_present[OF Cons.prems] by simp
  from Cons.IH[OF this] show ?case by simp
qed

lemma mark_verified_worker:
  "worker_verification_status (mark_verified cs db) = worker_verification_status db"
  by (induction cs arbitrary: db) (auto simp: update_document_worker)

lemma update_document_worker_errors:
  "worker_verification_errors (update_educational_document_verification j st e db) =
   worker_verification_errors db"
  by (simp add: update_educational_document_verification_def split: option.splits)

lemma mark_failed_worker_errors:
  "worker_verification_errors (mark_failed ms db) = worker_verification_errors db"
  by (induction ms arbitrary: db) (auto simp: update_document_worker_errors)

lemma mark_failed_row:
  "i \<in> mismatch_document_id ` set ms \<Longrightarrow> educational_documents db i \<noteq> None \<Longrightarrow>
   educational_documents (mark_failed ms db) i =
     Some \<lparr>verification_status = Some ''failed'',
           verification_errors =
             Some (field (last (filter (\<lambda>m. mismatch_document_id m = i) ms)),
                   reason (last (filter (\<lambda>m. mismatch_document_id m = i) ms)))\<rparr>"
proof (induction ms arbitrary: db rule: rev_induct)
  case Nil
  then show ?case by simp
next
  case (snoc m ms)
  show ?case
  proof (cases "mismatch_document_id m = i")
    case True
    from mark_failed_present[OF snoc.prems(2), of ms] obtain row where
      "educational_documents (mark_failed ms db) i = Some row" by auto
    from update_document_same[OF this] True show ?thesis by simp
  next
    case False
    with snoc.prems(1) have "i \<in> mismatch_document_id ` set ms" by auto
    from snoc.IH[OF this snoc.prems(2)] False show ?thesis
      by (simp add: update_document_other)
  qed
qed

lemma mark_verified_row:
  "i \<in> document_id ` set cs \<Longrightarrow> \<forall>c \<in> set cs. overall_match c \<Longrightarrow>
   educational_documents db i \<noteq> None \<Longrightarrow>
   educational_documents (mark_verified cs db) i =
     Some \<lparr>verification_status = Some ''verified'', verification_errors = None\<rparr>"
proof (induction cs arbitrary: db rule: rev_induct)
  case Nil
  then show ?case by simp
next
  case (snoc c cs)
  show ?case
  proof (cases "document_id c = i")
    case True
    from mark_verified_present[OF snoc.prems(3), of cs] obtain row where
      "educational_documents (mark_verified cs db) i = Some row" by auto
    from update_document_same[OF this] True snoc.prems(2) show ?thesis by simp
  next
    case False
    with snoc.prems(1) have "i \<in> document_id ` set cs" by auto
    from snoc.IH[OF this _ snoc.prems(3)] snoc.prems(2) False show ?thesis
      by (simp add: update_document_other)
  qed
qed

lemma mark_verified_worker_errors:
  "worker_verification_errors (mark_verified cs db) = worker_verification_errors db"
  by (induction cs arbitrary: db) (auto simp: update_document_worker_errors)

lemma verify_loop_mismatch_ids:
  "verify_loop pn pd docs (c0, m0, n0) = Inr (cs, ms, n) \<Longrightarrow>
   mismatch_document_id ` set ms =
     mismatch_document_id ` set m0 \<union>
     doc_id ` {d \<in> set docs. doc_overall_match pn pd d = Inr False}"
proof (induction docs arbitrary: c0 m0 n0)
  case Nil
  then show ?case by simp
next
  case (Cons d docs)
  show ?case
  proof (cases "exact_match_dob pd (extracted_dob d)")
    case (Inl e)
    with Cons.prems show ?thesis by simp
  next
    case (Inr p)
    obtain dob_ok msg where p: "p = (dob_ok, msg)" by (cases p)
    let ?nm = "fst (fuzzy_match_names pn (extracted_name d) default_threshold)"
    have om: "doc_overall_match pn pd d = Inr (?nm \<and> dob_ok)"
      by (simp add: doc_overall_match_def Inr p)
    define qual where "qual = (case qualification d of None \<Rightarrow> ''Unknown'' | Some q \<Rightarrow> q)"
    define nmm where "nmm = (if \<not> ?nm
        then [\<lparr>mismatch_document_id = doc_id d, mismatch_qualification = qual,
               field = ''name'', personal_value = the pn,
               document_value = or_not_found (extracted_name d),
               similarity = Some (py_round (snd (fuzzy_match_names pn (extracted_name d) default_threshold)) 3),
               reason = NameSimilarityBelowThreshold
                 (snd (fuzzy_match_names pn (extracted_name d) default_threshold))\<rparr>]
        else [])"
    define dmm where "dmm = (if \<not> dob_ok
        then [\<lparr>mismatch_document_id = doc_id d, mismatch_qualification = qual,
               field = ''dob'', personal_value = the pd,
               document_value = or_not_found (extracted_dob d),
               similarity = None, reason = DobMessage msg\<rparr>]
        else [])"
    have "\<exists>c1 n1. verify_loop pn pd (d # docs) (c0, m0, n0) =
        verify_loop pn pd docs (c1, m0 @ nmm @ dmm, n1)"
      by (simp add: Inr p Let_def nmm_def dmm_def qual_def) blast
    then obtain c1 n1 where
      step: "verify_loop pn pd docs (c1, m0 @ nmm @ dmm, n1) = Inr (cs, ms, n)"
      using Cons.prems by auto
    have ids: "mismatch_document_id ` set (m0 @ nmm @ dmm) =
        mismatch_document_id ` set m0 \<union> (if ?nm \<and> dob_ok then {} else {doc_id d})"
      by (auto simp: nmm_def dmm_def)
    from Cons.IH[OF step] ids om show ?thesis by auto
  qed
qed

lemma verify_documents_result:
  assumes "verify_documents pn pd docs = Inr r" and "\<not> py_not pn" and "\<not> py_not pd" and "docs \<noteq> []"
  shows "\<exists>n. verify_loop pn pd docs ([], [], 0) = Inr (comparisons r, mismatches r, n) \<and>
             status r = (if n = int (length docs) then ''verified'' else ''failed'')"
  using assms by (auto simp: verify_documents_def Let_def split: sum.splits)

text \<open>
  Claim C10, as amended. Take a result of \<open>verify_documents\<close> for a name, a date and at
  least one document, and a document of the list that has a row. When the status is
  \<open>verified\<close>, the worker is marked \<open>verified\<close> and the row of the document holds the
  status \<open>verified\<close> and no errors. Otherwise the worker is marked \<open>failed\<close> with the list
  of mismatches as its errors; when the \<open>overall_match\<close> of the document is false, its row
  holds the status \<open>failed\<close> and, as its errors, the field and the reason of the last
  mismatch recorded for it; when its \<open>overall_match\<close> is true, its row is left as it was:
  a document that matched is not marked \<open>verified\<close> when a sibling document failed.
\<close>

theorem persisted_document_status:
  assumes "verify_documents pn pd docs = Inr r"
    and "\<not> py_not pn" and "\<not> py_not pd" and "docs \<noteq> []"
    and "d \<in> set docs" and "educational_documents db (doc_id d) = Some row"
  shows
    "(status r = ''verified'' \<longrightarrow>
        worker_verification_status (update_db_verification_state r db) = Some ''verified'' \<and>
        educational_documents (update_db_verification_state r db) (doc_id d) =
          Some \<lparr>verification_status = Some ''verified'', verification_errors = None\<rparr>) \<and>
     (status r \<noteq> ''verified'' \<longrightarrow>
        worker_verification_status (update_db_verification_state r db) = Some ''failed'' \<and>
        worker_verification_errors (update_db_verification_state r db) = Some (mismatches r) \<and>
        ((\<exists>d' \<in> set docs. doc_id d' = doc_id d \<and> doc_overall_match pn pd d' = Inr False) \<longrightarrow>
           filter (\<lambda>m. mismatch_document_id m = doc_id d) (mismatches r) \<noteq> [] \<and>
           educational_documents (update_db_verification_state r db) (doc_id d) =
             Some \<lparr>verification_status = Some ''failed'',
                   verification_errors =
                     Some (field (last (filter (\<lambda>m. mismatch_document_id m = doc_id d)
                                          (mismatches r))),
                           reason (last (filter (\<lambda>m. mismatch_document_id m = doc_id d)
                                           (mismatches r))))\<rparr>) \<and>
        ((\<forall>d' \<in> set docs. doc_id d' = doc_id d \<longrightarrow> doc_overall_match pn pd d' = Inr True) \<longrightarrow>
           educational_documents (update_db_verification_state r db) (doc_id d) = Some row))"
proof -
  from verify_documents_result[OF assms(1-4)] obtain n where
    loop: "verify_loop pn pd docs ([], [], 0) = Inr (comparisons r, mismatches r, n)" by blast
  have defined: "\<forall>x \<in> set docs. \<exists>m. doc_overall_match pn pd x = Inr m"
  proof
    fix x assume x: "x \<in> set docs"
    show "\<exists>m. doc_overall_match pn pd x = Inr m"
    proof (cases "doc_overall_match pn pd x")
      case (Inl e)
      from verify_loop_raises[OF x Inl, of "([], [], 0)"] loop show ?thesis by simp
    next
      case (Inr m)
      then show ?thesis by blast
    qed
  qed
  from verify_documents_returns[OF assms(2-4) defined] assms(1)
  have ids: "map document_id (comparisons r) = map doc_id docs"
    and om: "map overall_match (comparisons r) = map (\<lambda>x. doc_overall_match pn pd x = Inr True) docs"
    and st0: "status r = (if \<forall>x \<in> set docs. doc_overall_match pn pd x = Inr True
                 then ''verified'' else ''failed'')"
    by auto
  have "(\<forall>c \<in> set (comparisons r). overall_match c) =
      (\<forall>b \<in> set (map overall_match (comparisons r)). b)" by simp
  also have "\<dots> = (\<forall>b \<in> set (map (\<lambda>x. doc_overall_match pn pd x = Inr True) docs). b)"
    by (simp only: om)
  also have "\<dots> = (\<forall>x \<in> set docs. doc_overall_match pn pd x = Inr True)" by simp
  finally have st: "status r = ''verified'' \<longleftrightarrow> (\<forall>c \<in> set (comparisons r). overall_match c)"
    using st0 by auto
  have mids: "mismatch_document_id ` set (mismatches r) =
      doc_id ` {x \<in> set docs. doc_overall_match pn pd x = Inr False}"
    using verify_loop_mismatch_ids[OF loop] by simp
  have present: "educational_documents db (doc_id d) \<noteq> None" using assms(6) by simp
  have wpresent: "educational_documents (update_worker_verification s e db) i =
      educational_documents db i" for s e i
    by (simp add: update_worker_verification_def split: option.splits)
  have wstatus: "worker_verification_status (update_worker_verification s e db) = Some s" for s e
    by (simp add: update_worker_verification_def split: option.splits)
  have werrors: "worker_verification_errors (update_worker_verification s (Some ms) db) = Some ms"
    for s ms
    by (simp add: update_worker_verification_def)
  let ?mine = "filter (\<lambda>m. mismatch_document_id m = doc_id d) (mismatches r)"
  have v: "status r = ''verified'' \<longrightarrow>
        worker_verification_status (update_db_verification_state r db) = Some ''verified'' \<and>
        educational_documents (update_db_verification_state r db) (doc_id d) =
          Some \<lparr>verification_status = Some ''verified'', verification_errors = None\<rparr>"
  proof
    assume sv: "status r = ''verified''"
    have "doc_id d \<in> document_id ` set (comparisons r)"
    proof -
      have "doc_id d \<in> set (map doc_id docs)" using assms(5) by simp
      then have "doc_id d \<in> set (map document_id (comparisons r))" by (simp only: ids)
      then show ?thesis by simp
    qed
    from mark_verified_row[OF this, of "update_worker_verification ''verified'' None db"] sv st present
    show "worker_verification_status (update_db_verification_state r db) = Some ''verified'' \<and>
        educational_documents (update_db_verification_state r db) (doc_id d) =
          Some \<lparr>verification_status = Some ''verified'', verification_errors = None\<rparr>"
      by (simp add: update_db_verification_state_def mark_verified_worker wstatus wpresent)
  qed
  have f: "status r \<noteq> ''verified'' \<longrightarrow>
        worker_verification_status (update_db_verification_state r db) = Some ''failed'' \<and>
        worker_verification_errors (update_db_verification_state r db) = Some (mismatches r) \<and>
        ((\<exists>d' \<in> set docs. doc_id d' = doc_id d \<and> doc_overall_match pn pd d' = Inr False) \<longrightarrow>
           ?mine \<noteq> [] \<and>
           educational_documents (update_db_verification_state r db) (doc_id d) =
             Some \<lparr>verification_status = Some ''failed'',
                   verification_errors = Some (field (last ?mine), reason (last ?mine))\<rparr>) \<and>
        ((\<forall>d' \<in> set docs. doc_id d' = doc_id d \<longrightarrow> doc_overall_match pn pd d' = Inr True) \<longrightarrow>
           educational_documents (update_db_verification_state r db) (doc_id d) = Some row)"
  proof (intro impI conjI)
    assume sf: "status r \<noteq> ''verified''"
    then have unf: "update_db_verification_state r db =
        mark_failed (mismatches r) (update_worker_verification ''failed'' (Some (mismatches r)) db)"
      by (simp add: update_db_verification_state_def)
    show "worker_verification_status (update_db_verification_state r db) = Some ''failed''"
      by (simp add: unf mark_failed_worker wstatus)
    show "worker_verification_errors (update_db_verification_state r db) = Some (mismatches r)"
      by (simp add: unf mark_failed_worker_errors werrors)
    {
      assume "\<exists>d' \<in> set docs. doc_id d' = doc_id d \<and> doc_overall_match pn pd d' = Inr False"
      then obtain d' where "d' \<in> set docs" "doc_id d' = doc_id d"
          "doc_overall_match pn pd d' = Inr False" by blast
      then have hit: "doc_id d \<in> mismatch_document_id ` set (mismatches r)"
        unfolding mids by (intro image_eqI[of _ _ d']) simp_all
      then show "?mine \<noteq> []"
        by (auto simp: filter_empty_conv)
      from mark_failed_row[OF hit, of "update_worker_verification ''failed'' (Some (mismatches r)) db"]
        present
      show "educational_documents (update_db_verification_state r db) (doc_id d) =
             Some \<lparr>verification_status = Some ''failed'',
                   verification_errors = Some (field (last ?mine), reason (last ?mine))\<rparr>"
        by (simp add: unf wpresent)
    }
    {
      assume "\<forall>d' \<in> set docs. doc_id d' = doc_id d \<longrightarrow> doc_overall_match pn pd d' = Inr True"
      then have "doc_id d \<notin> mismatch_document_id ` set (mismatches r)"
        unfolding mids by (auto simp: image_iff)
      from mark_failed_other[OF this, of "update_worker_verification ''failed'' (Some (mismatches r)) db"]
      show "educational_documents (update_db_verification_state r db) (doc_id d) = Some row"
        by (simp add: unf wpresent assms(6))
    }
  qed
  from v f show ?thesis by blast
qed

text \<open>
  Claim C10 as stated fails. Of two documents whose status is NULL, the first matches and
  the second has another date of birth: the aggregate status is \<open>failed\<close>, the second
  document is marked \<open>failed\<close>, and the status of the first, whose \<open>overall_match\<close> is true,
  is still NULL, not \<open>verified\<close>.
\<close>

theorem matched_document_not_marked_verified:
  "(case verify_documents (Some ''Babu Khan'') (Some ''01-12-1987'')
          [\<lparr>doc_id = 1, qualification = Some ''Class 10'',
            extracted_name = Some ''BABU  KHAN'', extracted_dob = Some ''1-12-87''\<rparr>,
           \<lparr>doc_id = 2, qualification = Some ''Class 12'',
            extracted_name = Some ''Babu Khan'', extracted_dob = Some ''02-12-1987''\<rparr>] of
      Inl e \<Rightarrow> False
    | Inr r \<Rightarrow>
        status r = ''failed'' \<and>
        map document_id (comparisons r) = [1, 2] \<and>
        map overall_match (comparisons r) = [True, False] \<and>
        map_option verification_status
          (educational_documents
             (update_db_verification_state r
                \<lparr>worker_verification_status = Some ''pending'',
                 worker_verification_errors = None,
                 educational_documents =
                   [1 \<mapsto> \<lparr>verification_status = None, verification_errors = None\<rparr>,
                    2 \<mapsto> \<lparr>verification_status = None, verification_errors = None\<rparr>]\<rparr>) 1) =
          Some None \<and>
        map_option verification_status
          (educational_documents
             (update_db_verification_state r
                \<lparr>worker_verification_status = Some ''pending'',
                 worker_verification_errors = None,
                 educational_documents =
                   [1 \<mapsto> \<lparr>verification_status = None, verification_errors = None\<rparr>,
                    2 \<mapsto> \<lparr>verification_status = None, verification_errors = None\<rparr>]\<rparr>) 2) =
          Some (Some ''failed''))"
  by code_simp

text \<open>
  The theorem applied to the same two documents, both with a pending row: the worker and
  the second document are marked \<open>failed\<close>, the errors of the second document are its
  date-of-birth mismatch, and the row of the first is unchanged.
\<close>

theorem persisted_document_status_witness:
  "\<exists>r. verify_documents (Some ''Babu Khan'') (Some ''01-12-1987'')
         [\<lparr>doc_id = 1, qualification = Some ''Class 10'',
           extracted_name = Some ''BABU  KHAN'', extracted_dob = Some ''1-12-87''\<rparr>,
          \<lparr>doc_id = 2, qualification = Some ''Class 12'',
           extracted_name = Some ''Babu Khan'', extracted_dob = Some ''02-12-1987''\<rparr>] = Inr r \<and>
       worker_verification_status
         (update_db_verification_state r
            \<lparr>worker_verification_status = Some ''pending'', worker_verification_errors = None,
             educational_documents =
               [1 \<mapsto> \<lparr>verification_status = Some ''pending'', verification_errors = None\<rparr>,
                2 \<mapsto> \<lparr>verification_status = Some ''pending'', verification_errors = None\<rparr>]\<rparr>) =
         Some ''failed'' \<and>
       worker_verification_errors
         (update_db_verification_state r
            \<lparr>worker_verification_status = Some ''pending'', worker_verification_errors = None,
             educational_documents =
               [1 \<mapsto> \<lparr>verification_status = Some ''pending'', verification_errors = None\<rparr>,
                2 \<mapsto> \<lparr>verification_status = Some ''pending'', verification_errors = None\<rparr>]\<rparr>) =
         Some (mismatches r) \<and>
       educational_documents
         (update_db_verification_state r
            \<lparr>worker_verification_status = Some ''pending'', worker_verification_errors = None,
             educational_documents =
               [1 \<mapsto> \<lparr>verification_status = Some ''pending'', verification_errors = None\<rparr>,
                2 \<mapsto> \<lparr>verification_status = Some ''pending'', verification_errors = None\<rparr>]\<rparr>) 2 =
         Some \<lparr>verification_status = Some ''failed'',
               verification_errors =
                 Some (''dob'', DobMessage ''DOB mismatch: 01-12-1987 vs 02-12-1987'')\<rparr> \<and>
       educational_documents
         (update_db_verification_state r
            \<lparr>worker_verification_status = Some ''pending'', worker_verification_errors = None,
             educational_documents =
               [1 \<mapsto> \<lparr>verification_status = Some ''pending'', verification_errors = None\<rparr>,
                2 \<mapsto> \<lparr>verification_status = Some ''pending'', verification_errors = None\<rparr>]\<rparr>) 1 =
         Some \<lparr>verification_status = Some ''pending'', verification_errors = None\<rparr>"
proof -
  let ?pn = "Some ''Babu Khan''" and ?pd = "Some ''01-12-1987''"
  let ?d1 = "\<lparr>doc_id = 1, qualification = Some ''Class 10'',
           extracted_name = Some ''BABU  KHAN'', extracted_dob = Some ''1-12-87''\<rparr>"
  let ?d2 = "\<lparr>doc_id = 2, qualification = Some ''Class 12'',
           extracted_name = Some ''Babu Khan'', extracted_dob = Some ''02-12-1987''\<rparr>"
  let ?row = "\<lparr>verification_status = Some ''pending'', verification_errors = None\<rparr>"
  let ?db = "\<lparr>worker_verification_status = Some ''pending'', worker_verification_errors = None,
             educational_documents = [1 \<mapsto> ?row, 2 \<mapsto> ?row]\<rparr>"
  have m1: "doc_overall_match ?pn ?pd ?d1 = Inr True" by code_simp
  have m2: "doc_overall_match ?pn ?pd ?d2 = Inr False" by code_simp
  have p: "\<not> py_not ?pn" "\<not> py_not ?pd" by (simp_all add: py_not_def)
  have "\<forall>d \<in> set [?d1, ?d2]. \<exists>m. doc_overall_match ?pn ?pd d = Inr m"
    using m1 m2 by auto
  from verify_documents_returns[OF p _ this]
  obtain r where r: "verify_documents ?pn ?pd [?d1, ?d2] = Inr r"
    and st: "status r = ''failed''"
    using m1 m2 by auto
  have "(case verify_documents ?pn ?pd [?d1, ?d2] of
           Inl e \<Rightarrow> False
         | Inr r \<Rightarrow> map (\<lambda>m. (mismatch_document_id m, field m, reason m)) (mismatches r) =
             [(2, ''dob'', DobMessage ''DOB mismatch: 01-12-1987 vs 02-12-1987'')])"
    by code_simp
  with r have ms: "map (\<lambda>m. (mismatch_document_id m, field m, reason m)) (mismatches r) =
      [(2, ''dob'', DobMessage ''DOB mismatch: 01-12-1987 vs 02-12-1987'')]"
    by simp
  then obtain m where single: "mismatches r = [m]" and m: "mismatch_document_id m = 2"
      "field m = ''dob''" "reason m = DobMessage ''DOB mismatch: 01-12-1987 vs 02-12-1987''"
    by (cases "mismatches r") auto
  have sf: "status r \<noteq> ''verified''" using st by simp
  have r1: "educational_documents ?db (doc_id ?d1) = Some ?row" by simp
  have r2: "educational_documents ?db (doc_id ?d2) = Some ?row" by simp
  note t1 = persisted_document_status[OF r p _ _ r1]
  note t2 = persisted_document_status[OF r p _ _ r2]
  have a: "worker_verification_status (update_db_verification_state r ?db) = Some ''failed''"
    using t1 sf by simp
  have a': "worker_verification_errors (update_db_verification_state r ?db) = Some (mismatches r)"
    using t1 sf by simp
  have b: "educational_documents (update_db_verification_state r ?db) 2 =
      Some \<lparr>verification_status = Some ''failed'',
            verification_errors =
              Some (''dob'', DobMessage ''DOB mismatch: 01-12-1987 vs 02-12-1987'')\<rparr>"
    using t2 sf m2 single m by simp
  have c: "educational_documents (update_db_verification_state r ?db) 1 = Some ?row"
    using t1 sf m1 by simp
  from r a a' b c show ?thesis by blast
qed

section \<open>Properties of calculate\_total\_experience\_duration\<close>










lemma digits_value_nonneg_aux:
  "list_all is_decimal ds \<Longrightarrow> 0 \<le> acc \<Longrightarrow> 0 \<le> foldl (\<lambda>acc c. 10 * acc + digit_val c) acc ds"
proof (induction ds arbitrary: acc)
  case Nil
  then show ?case by simp
next
  case (Cons c ds)
  then have lo: "48 \<le> (of_char c :: nat)" by (simp add: is_decimal_def)
  have e: "(of_char c :: int) = int (of_char c :: nat)" by (simp add: of_char_def)
  have "0 \<le> digit_val c" unfolding digit_val_def e using lo by linarith
  with Cons show ?case by simp
qed

lemma digits_value_nonneg: "0 \<le> digits_value (takeWhile is_decimal s)"
  unfolding digits_value_def
  by (rule digits_value_nonneg_aux) (simp_all add: list_all_iff, meson set_takeWhileD)

lemma float_of_decimal_nonneg: "0 \<le> float_of_decimal s"
  unfolding float_of_decimal_def Let_def
  using digits_value_nonneg[of s] digits_value_nonneg[of "drop 1 (dropWhile is_decimal s)"]
  by simp

lemma found_number_nonneg: "0 \<le> found_number units t"
  by (simp add: found_number_def float_of_decimal_nonneg split: option.splits)

















lemma re_search_here:
  "number_unit_here units s = Some g \<Longrightarrow> re_search units s = Some g"
  by (cases s) (simp_all add: number_unit_here_def)

text \<open>
  A text of 309 nines and the unit \<open>y\<close>: \<open>float\<close> gives \<open>inf\<close>, \<open>int(years * 12)\<close> raises
  OverflowError, the \<open>except\<close> clause does not catch it, and the function raises.
\<close>

lemma overflow_error_is_not_caught:
  "calculate_total_experience_duration
     [\<lparr>work_duration = Some (PStr (replicate 309 CHR ''9'' @ ''y'')), duration_months = None,
       start_date = None, end_date = None\<rparr>] = Inl OverflowError"
proof -
  define t where "t = replicate 309 CHR ''9'' @ ''y''"
  define g where "g = replicate 309 CHR ''9''"
  have inf: "py_int_of_float (float_of_decimal g * 12) = Inl OverflowError"
    unfolding g_def by code_simp
  have "number_unit_here year_units t = Some g"
    unfolding t_def g_def by code_simp
  then have found: "re_search year_units t = Some g"
    by (rule re_search_here)
  have stripped: "py_strip (py_lower t) = t"
    unfolding t_def by code_simp
  have ne: "t \<noteq> []"
    unfolding t_def by simp
  have "duration_text_months t = Inl OverflowError"
    by (simp add: duration_text_months_def found inf py_bind_def)
  then have "calculate_total_experience_duration
     [\<lparr>work_duration = Some (PStr t), duration_months = None,
       start_date = None, end_date = None\<rparr>] = Inl OverflowError"
    using ne
    by (simp add: calculate_total_experience_duration_def workplace_body_def
        present_and_truthy_def truthy_def py_str_def stripped py_bind_def caught_def)
  then show ?thesis by (simp only: t_def)
qed







end
